theory Spec2Isabelle
  imports Complex_Main "HOL-Library.Word" "HOL-Library.Log_Nat" "HOL-Library.Sublist"
    "HOL-Library.Multiset"
begin

section \<open>Strings and numbers of the source language\<close>

text \<open>
  A TypeScript string is a sequence of UTF-16 code units; \<open>s.length\<close>, \<open>slice\<close>,
  regular expressions without the \<open>u\<close> flag and string comparison all work on code
  units. A string is therefore a list of 16-bit words, and \<open>lit\<close> writes an ASCII
  literal as such a list.
\<close>

type_synonym cu = "16 word"
type_synonym jsstring = "cu list"

definition lit :: "string \<Rightarrow> jsstring" where
  "lit s = map (\<lambda>c. of_nat (of_char c)) s"

text \<open>
  A TypeScript \<open>number\<close> is an IEEE-754 double. A finite double is a rational number,
  and every arithmetic operation returns the exact result rounded to the nearest double,
  ties to the even mantissa. \<open>fl\<close> is that rounding for the normal range (53-bit
  mantissa, no overflow to infinity and no subnormals): the quantities of this program
  are character counts, scores between 0 and 100 and their quotients, all far inside
  that range. A decimal literal of the source such as \<open>0.08\<close> denotes \<open>fl (8 / 100)\<close>.
\<close>

definition fl :: "rat \<Rightarrow> rat" where
  "fl x = (if x = 0 then 0 else
     let (a, b) = quotient_of \<bar>x\<bar>;
         k = bitlen a - bitlen b;
         e = (if 2 powi k \<le> \<bar>x\<bar> then k else k - 1);
         u = 2 powi (e - 52);
         q = \<bar>x\<bar> / u;
         n = \<lfloor>q\<rfloor>;
         r = q - of_int n;
         m = (if r < 1 / 2 then n else if 1 / 2 < r then n + 1
              else if even n then n else n + 1)
     in sgn x * of_int m * u)"

text \<open>\<open>Math.round\<close>: the nearest integer, a tie going towards plus infinity.\<close>

definition jsRound :: "rat \<Rightarrow> int" where
  "jsRound x = \<lfloor>x + 1 / 2\<rfloor>"

text \<open>\<open>clamp\<close> of textUtils.ts: \<open>Math.min(max, Math.max(min, n))\<close>.\<close>

definition clamp :: "'a::linorder \<Rightarrow> 'a \<Rightarrow> 'a \<Rightarrow> 'a" where
  "clamp n lo hi = min hi (max lo n)"


section \<open>Report schema (report/schema.ts)\<close>

datatype RiskLevel = Low | Medium | High

datatype CategoryId =
  languageStats | styleHabits | logicCoherence | verifiability
  | structureFormat | aiPattern | cognitiveFeatures

text \<open>
  A finding. The fields \<open>title\<close>, \<open>evidence\<close> and \<open>suggestion\<close> of the source are
  texts shown to the user (fixed per rule, or formatted from the features) that no
  score, tier or control decision reads; they are left out. Every rule of the detector
  gives \<open>score\<close> an integer literal.
\<close>

record FindingSignal =
  signalId :: string
  category :: CategoryId
  score :: int

text \<open>
  \<open>DocxParagraphKind\<close>; the source's \<open>"paragraph"\<close> is written \<open>plainParagraph\<close>.
\<close>

datatype DocxParagraphKind = plainParagraph | tableCellParagraph

text \<open>
  The part of a \<open>DocxParagraph\<close> that detection reads
  (\<open>Pick<DocxParagraph, "id" | "index" | "kind" | "text">\<close>), and the full type.
  The source's field names \<open>id\<close>, \<open>index\<close>, \<open>kind\<close> and \<open>text\<close> are
  written \<open>blockId\<close>, \<open>blockIndex\<close>, \<open>blockKind\<close> and \<open>blockText\<close>
  (\<open>text\<close> is a keyword of Isabelle and \<open>id\<close> a constant of HOL).
\<close>

record Block =
  blockId :: jsstring
  blockIndex :: nat
  blockKind :: DocxParagraphKind
  blockText :: jsstring

record DocxParagraph = Block +
  xml :: jsstring

text \<open>
  \<open>ParagraphReport\<close>; its fields \<open>index\<close>, \<open>kind\<close> and \<open>text\<close> are written
  \<open>reportIndex\<close>, \<open>reportKind\<close> and \<open>reportText\<close>.
\<close>

record ParagraphReport =
  paragraphId :: jsstring
  reportIndex :: nat
  reportKind :: DocxParagraphKind
  reportText :: jsstring
  riskScore :: int
  riskLevel :: RiskLevel
  signals :: "FindingSignal list"


section \<open>Paragraph scoring (analysis/detector.ts)\<close>

text \<open>
  The function \<open>riskLevel\<close> of the source, written \<open>riskLevelOf\<close> beside the field
  \<open>riskLevel\<close> of the report.
\<close>

definition riskLevelOf :: "int \<Rightarrow> RiskLevel" where
  "riskLevelOf s = (if 70 \<le> s then High else if 35 \<le> s then Medium else Low)"

definition synergyBonus :: "FindingSignal list \<Rightarrow> int" where
  "synergyBonus sigs =
     (let n = length sigs;
          categories = set (map category sigs);
          bonus = (if 5 \<le> n then 25 else if 4 \<le> n then 18 else if 3 \<le> n then 10 else 0)
      in if 3 \<le> card categories then bonus + 8 else bonus)"

text \<open>
  The end of the per-paragraph callback of \<open>detectAigcRisk\<close>: base score by a
  left-to-right \<open>reduce\<close>, synergy bonus, clamp, tier, report.
\<close>

definition baseScore :: "FindingSignal list \<Rightarrow> int" where
  "baseScore sigs = foldl (\<lambda>a s. a + score s) 0 sigs"

definition paragraphRiskScore :: "FindingSignal list \<Rightarrow> int" where
  "paragraphRiskScore sigs = clamp (baseScore sigs + synergyBonus sigs) 0 100"

definition scoreParagraph :: "'a Block_scheme \<Rightarrow> FindingSignal list \<Rightarrow> ParagraphReport" where
  "scoreParagraph p sigs =
     \<lparr>paragraphId = blockId p, reportIndex = blockIndex p, reportKind = blockKind p,
      reportText = blockText p,
      riskScore = paragraphRiskScore sigs,
      riskLevel = riskLevelOf (paragraphRiskScore sigs),
      signals = sigs\<rparr>"


section \<open>Document aggregation (analysis/detector.ts)\<close>

text \<open>
  The \<open>for (const r of paragraphReports)\<close> loop, with its two accumulators
  \<open>(aiCharCount, totalCharCount)\<close>. Each \<open>+=\<close>, \<open>*\<close> and \<open>/\<close> is a double
  operation.
\<close>

fun aggregateLoop :: "ParagraphReport list \<Rightarrow> rat \<times> rat \<Rightarrow> rat \<times> rat" where
  "aggregateLoop [] acc = acc"
| "aggregateLoop (r # rs) (aiCharCount, totalCharCount) =
     (let charLen = of_nat (length (reportText r));
          totalCharCount' = fl (totalCharCount + charLen);
          aiCharCount' =
            (if 35 \<le> riskScore r
             then fl (aiCharCount + fl (charLen * fl (of_int (riskScore r) / 100)))
             else aiCharCount)
      in aggregateLoop rs (aiCharCount', totalCharCount'))"

definition overallRiskScoreOf :: "ParagraphReport list \<Rightarrow> int" where
  "overallRiskScoreOf reports =
     (case aggregateLoop reports (0, 0) of (aiCharCount, totalCharCount) \<Rightarrow>
        if 0 < totalCharCount
        then clamp (jsRound (fl (fl (aiCharCount / totalCharCount) * 100))) 0 100
        else 0)"

text \<open>
  The document score of the specification, read in exact arithmetic:
  \<open>round(100 \<times> \<Sum>(len(p) \<times> p.score / 100 for p with score \<ge> 35) / \<Sum>(len(p)))\<close>,
  clamped to \<open>[0, 100]\<close>, and 0 when the total length is 0.
\<close>

definition exactDocumentScore :: "ParagraphReport list \<Rightarrow> int" where
  "exactDocumentScore reports =
     (let total = (\<Sum>r\<leftarrow>reports. of_nat (length (reportText r)) :: rat);
          ai = (\<Sum>r\<leftarrow>filter (\<lambda>r. 35 \<le> riskScore r) reports.
                  of_nat (length (reportText r)) * (of_int (riskScore r) / 100))
      in if total = 0 then 0 else clamp (jsRound (100 * ai / total)) 0 100)"

definition documentScore :: "ParagraphReport list \<Rightarrow> int \<times> RiskLevel" where
  "documentScore reports =
     (let overallRiskScore = overallRiskScoreOf reports
      in (overallRiskScore, riskLevelOf overallRiskScore))"

text \<open>
  A sum of doubles accumulated from left to right, each addition rounded: the value
  that a \<open>+=\<close> loop over the list leaves in its accumulator.
\<close>

definition floatSum :: "rat list \<Rightarrow> rat" where
  "floatSum xs = foldl (\<lambda>a x. fl (a + x)) 0 xs"


section \<open>XML text escaping (docx/xmlText.ts)\<close>

text \<open>
  \<open>input.replace(/pat/g, rep)\<close> for a pattern that is a literal, non-empty string and
  a replacement without \<open>$\<close>: the string is scanned from the left, and every match is
  replaced, the scan going on after the match.
\<close>

function replaceAll :: "jsstring \<Rightarrow> jsstring \<Rightarrow> jsstring \<Rightarrow> jsstring" where
  "replaceAll pat rep [] = []"
| "replaceAll pat rep (c # cs) =
     (if pat \<noteq> [] \<and> prefix pat (c # cs)
      then rep @ replaceAll pat rep (drop (length pat) (c # cs))
      else c # replaceAll pat rep cs)"
  by pat_completeness auto
termination
  by (relation "measure (\<lambda>(pat, rep, s). length s)") auto

text \<open>The double quote and the apostrophe, as code units.\<close>

definition dquote :: cu where
  "dquote = 0x22"

definition apos :: cu where
  "apos = 0x27"

definition decodeXmlText :: "jsstring \<Rightarrow> jsstring" where
  "decodeXmlText input =
     replaceAll (lit ''&amp;'') (lit ''&'')
       (replaceAll (lit ''&apos;'') [apos]
         (replaceAll (lit ''&quot;'') [dquote]
           (replaceAll (lit ''&gt;'') (lit ''>'')
             (replaceAll (lit ''&lt;'') (lit ''<'') input))))"

definition encodeXmlText :: "jsstring \<Rightarrow> jsstring" where
  "encodeXmlText input =
     replaceAll [apos] (lit ''&apos;'')
       (replaceAll [dquote] (lit ''&quot;'')
         (replaceAll (lit ''>'') (lit ''&gt;'')
           (replaceAll (lit ''<'') (lit ''&lt;'')
             (replaceAll (lit ''&'') (lit ''&amp;'') input))))"

text \<open>
  For the proofs: the text that stands for one character while the entities of the
  characters in \<open>E\<close> are still encoded.
\<close>

definition entity :: "cu \<Rightarrow> jsstring" where
  "entity c = (if c = 0x26 then lit ''&amp;'' else if c = 0x3C then lit ''&lt;''
     else if c = 0x3E then lit ''&gt;'' else if c = 0x22 then lit ''&quot;''
     else if c = 0x27 then lit ''&apos;'' else [c])"

definition partial :: "cu set \<Rightarrow> cu \<Rightarrow> jsstring" where
  "partial E c = (if c \<in> E then entity c else [c])"


section \<open>Regular expressions\<close>

text \<open>
  The regular expressions of the source are modelled by matchers: a matcher takes the
  string from a position on and returns the length of the match that starts there and
  its capture groups, or \<open>None\<close>. Every expression modelled this way begins with a
  literal \<open><\<close>, so a match does not depend on what precedes the position.

  \<open>\b\<close> after a word character holds at the end of the string and before a character
  that is not a word character (\<open>[A-Za-z0-9_]\<close>); \<open>\s\<close> is the white space and line
  terminators of ECMAScript.
\<close>

definition isWordChar :: "cu \<Rightarrow> bool" where
  "isWordChar c = ((0x41 \<le> c \<and> c \<le> 0x5A) \<or> (0x61 \<le> c \<and> c \<le> 0x7A)
     \<or> (0x30 \<le> c \<and> c \<le> 0x39) \<or> c = 0x5F)"

definition boundaryAfterWord :: "jsstring \<Rightarrow> bool" where
  "boundaryAfterWord rest = (case rest of [] \<Rightarrow> True | c # _ \<Rightarrow> \<not> isWordChar c)"

definition isSpace :: "cu \<Rightarrow> bool" where
  "isSpace c = (c \<in> {0x09, 0x0A, 0x0B, 0x0C, 0x0D, 0x20, 0xA0, 0x1680, 0x2028, 0x2029,
       0x202F, 0x205F, 0x3000, 0xFEFF} \<or> (0x2000 \<le> c \<and> c \<le> 0x200A))"

text \<open>\<open>s.indexOf(pat)\<close>: the first position at which \<open>pat\<close> occurs.\<close>

fun indexOf :: "jsstring \<Rightarrow> jsstring \<Rightarrow> nat option" where
  "indexOf pat [] = (if pat = [] then Some 0 else None)"
| "indexOf pat (c # cs) =
     (if prefix pat (c # cs) then Some 0 else map_option Suc (indexOf pat cs))"

text \<open>
  The successive matches of a global regular expression from position \<open>i\<close> on, as the
  loop \<open>while ((m = re.exec(s)))\<close> and \<open>s.matchAll(re)\<close> produce them: the leftmost
  match at or after the position, then the search goes on where the match ended. Each
  match is (index, length, capture groups). No expression here matches the empty string.
\<close>

function regexMatches ::
  "(jsstring \<Rightarrow> (nat \<times> 'a) option) \<Rightarrow> jsstring \<Rightarrow> nat \<Rightarrow> (nat \<times> nat \<times> 'a) list" where
  "regexMatches re s i =
     (if length s \<le> i then []
      else (case re (drop i s) of
              Some (n, groups) \<Rightarrow> (i, n, groups) # regexMatches re s (i + max 1 n)
            | None \<Rightarrow> regexMatches re s (Suc i)))"
  by pat_completeness auto
termination
  by (relation "measure (\<lambda>(re, s, i). length s - i)") auto

declare regexMatches.simps [simp del]

text \<open>The first match: a single \<open>exec\<close>, \<open>test\<close> or non-global \<open>replace\<close>.\<close>

definition regexExec ::
  "(jsstring \<Rightarrow> (nat \<times> 'a) option) \<Rightarrow> jsstring \<Rightarrow> (nat \<times> nat \<times> 'a) option" where
  "regexExec re s = (case regexMatches re s 0 of [] \<Rightarrow> None | m # _ \<Rightarrow> Some m)"

text \<open>\<open>/<w:p\b[\s\S]*?<\/w:p>/\<close>: the lazy body ends at the first closing tag.\<close>

definition matchParagraph :: "jsstring \<Rightarrow> (nat \<times> unit) option" where
  "matchParagraph s =
     (if prefix (lit ''<w:p'') s \<and> boundaryAfterWord (drop 4 s)
      then map_option (\<lambda>k. (4 + k + 6, ())) (indexOf (lit ''</w:p>'') (drop 4 s))
      else None)"

text \<open>\<open>/<w:tc\b/\<close> and \<open>/<\/w:tc>/\<close>.\<close>

definition matchOpenTc :: "jsstring \<Rightarrow> (nat \<times> unit) option" where
  "matchOpenTc s =
     (if prefix (lit ''<w:tc'') s \<and> boundaryAfterWord (drop 5 s) then Some (5, ()) else None)"

definition matchCloseTc :: "jsstring \<Rightarrow> (nat \<times> unit) option" where
  "matchCloseTc s = (if prefix (lit ''</w:tc>'') s then Some (7, ()) else None)"

text \<open>
  \<open>/<w:t\b([^>]*)>([\s\S]*?)<\/w:t>/\<close>: the greedy \<open>[^>]*\<close> takes every character up
  to the next \<open>>\<close>, which must follow; the lazy body ends at the first \<open></w:t>\<close>. The
  groups are the attributes and the content.
\<close>

definition matchT :: "jsstring \<Rightarrow> (nat \<times> jsstring list) option" where
  "matchT s =
     (if prefix (lit ''<w:t'') s \<and> boundaryAfterWord (drop 4 s)
      then (let attr = takeWhile (\<lambda>c. c \<noteq> 0x3E) (drop 4 s);
                rest = drop (4 + length attr) s
            in case rest of
                 [] \<Rightarrow> None
               | _ # body \<Rightarrow>
                   map_option (\<lambda>k. (4 + length attr + 1 + k + 6, [attr, take k body]))
                     (indexOf (lit ''</w:t>'') body))
      else None)"

text \<open>
  The other alternatives of the token expression of \<open>extractParagraphText\<close>:
  \<open><w:tab\s*\/>\<close>, \<open><w:br\b[^>]*\/>\<close> (the greedy \<open>[^>]*\<close> gives back its last
  character, which must be the \<open>/\<close>) and \<open><w:cr\s*\/>\<close>.
\<close>

definition matchSpacedEmpty :: "string \<Rightarrow> jsstring \<Rightarrow> nat option" where
  "matchSpacedEmpty tag s =
     (if prefix (lit tag) s
      then (let ws = takeWhile isSpace (drop (length tag) s)
            in if prefix (lit ''/>'') (drop (length tag + length ws) s)
               then Some (length tag + length ws + 2) else None)
      else None)"

definition matchBr :: "jsstring \<Rightarrow> nat option" where
  "matchBr s =
     (if prefix (lit ''<w:br'') s \<and> boundaryAfterWord (drop 5 s)
      then (let run = takeWhile (\<lambda>c. c \<noteq> 0x3E) (drop 5 s)
            in if run \<noteq> [] \<and> last run = 0x2F \<and> drop (5 + length run) s \<noteq> []
               then Some (5 + length run + 1) else None)
      else None)"

text \<open>
  The token expression: the alternatives in the order of the source. The group is the
  content of a \<open><w:t>\<close>, and undefined (\<open>None\<close>) for the other tokens.
\<close>

definition matchToken :: "jsstring \<Rightarrow> (nat \<times> jsstring option) option" where
  "matchToken s =
     (case matchT s of
        Some (n, groups) \<Rightarrow> Some (n, Some (groups ! 1))
      | None \<Rightarrow>
          (case matchSpacedEmpty ''<w:tab'' s of
             Some n \<Rightarrow> Some (n, None)
           | None \<Rightarrow>
               (case matchBr s of
                  Some n \<Rightarrow> Some (n, None)
                | None \<Rightarrow> map_option (\<lambda>n. (n, None)) (matchSpacedEmpty ''<w:cr'' s))))"


section \<open>Splitting the document stream (docx/documentXml.ts)\<close>

datatype DocumentXmlParts = Chunk jsstring | ParagraphPart DocxParagraph

text \<open>The markup of a part, as the reassembly of the patcher reads it.\<close>

fun partXml :: "DocumentXmlParts \<Rightarrow> jsstring" where
  "partXml (Chunk x) = x"
| "partXml (ParagraphPart p) = xml p"

text \<open>
  \<open>extractParagraphText\<close>: the tokens in order, a \<open><w:t>\<close> giving its decoded content,
  a tab token a tab and any other token a line feed; then the trailing white space
  (a no-break space or \<open>\s\<close>, to the end) is removed.
\<close>

definition tokenText :: "jsstring \<Rightarrow> nat \<times> nat \<times> jsstring option \<Rightarrow> jsstring" where
  "tokenText paragraphXml m =
     (case m of (i, n, group1) \<Rightarrow>
        (case group1 of
           Some content \<Rightarrow> decodeXmlText content
         | None \<Rightarrow>
             if prefix (lit ''<w:tab'') (take n (drop i paragraphXml)) then [0x09] else [0x0A]))"

definition trimEnd :: "jsstring \<Rightarrow> jsstring" where
  "trimEnd s = rev (dropWhile (\<lambda>c. c = 0xA0 \<or> isSpace c) (rev s))"

definition extractParagraphText :: "jsstring \<Rightarrow> jsstring" where
  "extractParagraphText paragraphXml =
     trimEnd (foldl (\<lambda>out m. out @ tokenText paragraphXml m) []
                (regexMatches matchToken paragraphXml 0))"

text \<open>
  \<open>updateTableCellDepth\<close>: the first loop adds one per open tag of the fragment, the
  second then subtracts one per close tag, not below 0.
\<close>

definition tcOpens :: "jsstring \<Rightarrow> nat" where
  "tcOpens xmlChunk = length (regexMatches matchOpenTc xmlChunk 0)"

definition tcCloses :: "jsstring \<Rightarrow> nat" where
  "tcCloses xmlChunk = length (regexMatches matchCloseTc xmlChunk 0)"

definition updateTableCellDepth :: "jsstring \<Rightarrow> int \<Rightarrow> int" where
  "updateTableCellDepth xmlChunk tcDepth =
     ((\<lambda>d. max 0 (d - 1)) ^^ tcCloses xmlChunk) (((\<lambda>d. d + 1) ^^ tcOpens xmlChunk) tcDepth)"

text \<open>The decimal digits of a number, as the template \<open>`p-${paraIndex}`\<close> writes it.\<close>

function decimal :: "nat \<Rightarrow> jsstring" where
  "decimal n = (if n < 10 then [0x30 + of_nat n] else decimal (n div 10) @ [0x30 + of_nat (n mod 10)])"
  by pat_completeness auto
termination
  by (relation "measure (\<lambda>n. n)") auto

declare decimal.simps [simp del]

text \<open>
  The body of the loop \<open>while ((match = paragraphRe.exec(documentXml)))\<close> of
  \<open>splitDocumentXmlIntoParts\<close>, over the successive matches, with the variables
  \<open>lastIndex\<close>, \<open>paraIndex\<close> and \<open>tcDepth\<close>; after the last match, the tail.
\<close>

primrec splitLoop ::
  "jsstring \<Rightarrow> (nat \<times> nat \<times> unit) list \<Rightarrow> nat \<Rightarrow> nat \<Rightarrow> int \<Rightarrow> DocumentXmlParts list" where
  "splitLoop documentXml [] lastIndex paraIndex tcDepth =
     (let tail = drop lastIndex documentXml in if tail = [] then [] else [Chunk tail])"
| "splitLoop documentXml (m # ms) lastIndex paraIndex tcDepth =
     (let start = fst m;
          len = fst (snd m);
          endIndex = start + len;
          before = take (start - lastIndex) (drop lastIndex documentXml);
          tcDepth1 = (if before = [] then tcDepth else updateTableCellDepth before tcDepth);
          paraXml = take len (drop start documentXml);
          paragraph =
            \<lparr>blockId = lit ''p-'' @ decimal paraIndex, blockIndex = paraIndex,
             blockKind = (if 0 < tcDepth1 then tableCellParagraph else plainParagraph),
             blockText = extractParagraphText paraXml, xml = paraXml\<rparr>
      in (if before = [] then [] else [Chunk before])
         @ ParagraphPart paragraph
         # splitLoop documentXml ms endIndex (paraIndex + 1)
             (updateTableCellDepth paraXml tcDepth1))"

text \<open>The paragraphs pushed to \<open>paragraphs\<close> are those pushed to \<open>parts\<close>, in order.\<close>

fun paragraphsOf :: "DocumentXmlParts list \<Rightarrow> DocxParagraph list" where
  "paragraphsOf [] = []"
| "paragraphsOf (Chunk _ # ps) = paragraphsOf ps"
| "paragraphsOf (ParagraphPart p # ps) = p # paragraphsOf ps"

record SplitResult =
  parts :: "DocumentXmlParts list"
  paragraphs :: "DocxParagraph list"

definition splitDocumentXmlIntoParts :: "jsstring \<Rightarrow> SplitResult" where
  "splitDocumentXmlIntoParts documentXml =
     (let ps = splitLoop documentXml (regexMatches matchParagraph documentXml 0) 0 0 0
      in \<lparr>parts = ps, paragraphs = paragraphsOf ps\<rparr>)"

text \<open>
  For the proofs: the matches of a list start at or after a position and do not overlap.
\<close>

fun chained :: "nat \<Rightarrow> (nat \<times> nat \<times> 'a) list \<Rightarrow> bool" where
  "chained i [] = True"
| "chained i ((j, n, _) # ms) = (i \<le> j \<and> chained (j + n) ms)"

text \<open>
  The counter of the specification's words: the open and close tags of a text taken one
  by one in document order, an open tag adding one and a close tag subtracting one, not
  below 0.
\<close>

fun docOrderDepth :: "jsstring \<Rightarrow> int \<Rightarrow> int" where
  "docOrderDepth [] d = d"
| "docOrderDepth (c # cs) d =
     docOrderDepth cs
       (if matchOpenTc (c # cs) \<noteq> None then d + 1
        else if matchCloseTc (c # cs) \<noteq> None then max 0 (d - 1) else d)"

text \<open>
  The counter as the code keeps it: over the fragments (in-between chunks and block
  fragments) in document order, each fragment adding its open tags and then subtracting
  its close tags, not below 0.
\<close>

definition fragmentDepth :: "jsstring list \<Rightarrow> int" where
  "fragmentDepth fragments =
     foldl (\<lambda>d x. max 0 (d + int (tcOpens x) - int (tcCloses x))) 0 fragments"


section \<open>Patching paragraphs (docx/patcher.ts)\<close>

text \<open>
  \<open>String.prototype.replace\<close> expands its replacement string (GetSubstitution of
  ECMAScript): \<open>$$\<close> is a dollar sign, \<open>$&\<close> the matched text, \<open>$`\<close> the text before
  the match, \<open>$'\<close> the text after it, and \<open>$n\<close> or \<open>$nn\<close> the capture group of that
  number when the expression has one (two digits are tried first, then one); any other
  \<open>$\<close> stands for itself. \<open>captureRef\<close> gives the group a \<open>$\<close> followed by the digit
  \<open>d\<close> and then \<open>rest\<close> refers to, and how many characters of \<open>rest\<close> belong to the
  reference.
\<close>

definition isDigit :: "cu \<Rightarrow> bool" where
  "isDigit c = (0x30 \<le> c \<and> c \<le> 0x39)"

definition digitValue :: "cu \<Rightarrow> nat" where
  "digitValue c = unat c - 0x30"

definition captureRef :: "jsstring list \<Rightarrow> cu \<Rightarrow> jsstring \<Rightarrow> (jsstring \<times> nat) option" where
  "captureRef caps d rest =
     (let m = length caps;
          one = digitValue d;
          single = (if 1 \<le> one \<and> one \<le> m then Some (caps ! (one - 1), 0) else None)
      in case rest of
           [] \<Rightarrow> single
         | e # _ \<Rightarrow>
             if isDigit e
             then (let two = 10 * one + digitValue e
                   in if two \<le> m
                      then (if 1 \<le> two then Some (caps ! (two - 1), 1) else None)
                      else single)
             else single)"

function getSubstitution ::
  "jsstring \<Rightarrow> jsstring \<Rightarrow> jsstring \<Rightarrow> jsstring list \<Rightarrow> jsstring \<Rightarrow> jsstring" where
  "getSubstitution matched pre post caps [] = []"
| "getSubstitution matched pre post caps [c] = [c]"
| "getSubstitution matched pre post caps (c # d # rest) =
     (if c \<noteq> 0x24 then c # getSubstitution matched pre post caps (d # rest)
      else if d = 0x24 then 0x24 # getSubstitution matched pre post caps rest
      else if d = 0x26 then matched @ getSubstitution matched pre post caps rest
      else if d = 0x60 then pre @ getSubstitution matched pre post caps rest
      else if d = 0x27 then post @ getSubstitution matched pre post caps rest
      else if isDigit d
      then (case captureRef caps d rest of
              Some (cap, k) \<Rightarrow> cap @ getSubstitution matched pre post caps (drop k rest)
            | None \<Rightarrow> c # getSubstitution matched pre post caps (d # rest))
      else c # getSubstitution matched pre post caps (d # rest))"
  by pat_completeness auto
termination
  by (relation "measure (\<lambda>(matched, pre, post, caps, template). length template)") auto

text \<open>
  \<open>s.replace(pat, template)\<close> for a string \<open>pat\<close>: the first occurrence of \<open>pat\<close> is
  replaced by the expanded template; there are no capture groups.
\<close>

definition replaceString :: "jsstring \<Rightarrow> jsstring \<Rightarrow> jsstring \<Rightarrow> jsstring" where
  "replaceString s pat template =
     (case indexOf pat s of
        None \<Rightarrow> s
      | Some pos \<Rightarrow>
          (let pre = take pos s; post = drop (pos + length pat) s
           in pre @ getSubstitution pat pre post [] template @ post))"

text \<open>\<open>s.replace(re, template)\<close> for a regular expression without the \<open>g\<close> flag.\<close>

definition replaceRegex ::
  "(jsstring \<Rightarrow> (nat \<times> jsstring list) option) \<Rightarrow> jsstring \<Rightarrow> jsstring \<Rightarrow> jsstring" where
  "replaceRegex re s template =
     (case regexExec re s of
        None \<Rightarrow> s
      | Some (pos, n, caps) \<Rightarrow>
          (let pre = take pos s; post = drop (pos + n) s
           in pre @ getSubstitution (take n (drop pos s)) pre post caps template @ post))"

text \<open>
  \<open>/(<w:pPr\b[\s\S]*?<\/w:pPr>)/\<close> and \<open>/(<w:p\b[^>]*>)/\<close>; the group is the whole
  match.
\<close>

definition matchPPr :: "jsstring \<Rightarrow> (nat \<times> jsstring list) option" where
  "matchPPr s =
     (if prefix (lit ''<w:pPr'') s \<and> boundaryAfterWord (drop 6 s)
      then map_option (\<lambda>k. (6 + k + 8, [take (6 + k + 8) s]))
             (indexOf (lit ''</w:pPr>'') (drop 6 s))
      else None)"

definition matchOpenP :: "jsstring \<Rightarrow> (nat \<times> jsstring list) option" where
  "matchOpenP s =
     (if prefix (lit ''<w:p'') s \<and> boundaryAfterWord (drop 4 s)
      then (let attr = takeWhile (\<lambda>c. c \<noteq> 0x3E) (drop 4 s)
            in if drop (4 + length attr) s = [] then None
               else Some (4 + length attr + 1, [take (4 + length attr + 1) s]))
      else None)"

definition spacePreserve :: jsstring where
  "spacePreserve = lit '' xml:space='' @ [dquote] @ lit ''preserve'' @ [dquote]"

definition replaceParagraphTextInXml :: "jsstring \<Rightarrow> jsstring \<Rightarrow> jsstring" where
  "replaceParagraphTextInXml paragraphXml nextTextRaw =
     (let nextText = encodeXmlText nextTextRaw;
          matches = regexMatches matchT paragraphXml 0
      in case matches of
           [] \<Rightarrow>
             (let hasPPr = (regexExec matchPPr paragraphXml \<noteq> None);
                  insertAfter = (if hasPPr then matchPPr else matchOpenP);
                  run = lit ''<w:r><w:t'' @ spacePreserve @ lit ''>'' @ nextText
                        @ lit ''</w:t></w:r>''
              in replaceRegex insertAfter paragraphXml (lit ''$1'' @ run))
         | first # others \<Rightarrow>
             (let wholeOf = (\<lambda>m. take (fst (snd m)) (drop (fst m) paragraphXml));
                  attrOf = (\<lambda>m. snd (snd m) ! 0);
                  firstAttr = attrOf first;
                  firstTag =
                    (if indexOf (lit ''xml:space='') firstAttr \<noteq> None
                     then lit ''<w:t'' @ firstAttr @ lit ''>''
                     else lit ''<w:t'' @ firstAttr @ spacePreserve @ lit ''>'');
                  out = replaceString paragraphXml (wholeOf first)
                          (firstTag @ nextText @ lit ''</w:t>'')
              in foldl (\<lambda>out m. replaceString out (wholeOf m)
                                    (lit ''<w:t'' @ attrOf m @ lit ''></w:t>''))
                   out others))"

text \<open>
  \<open>patchDocxParagraphs\<close>. The archive is the map from its file names to their texts;
  reading it and writing it back are the library's. A missing \<open>word/document.xml\<close> is the
  error thrown. \<open>replacements\<close> is the record from block ids to new texts.
\<close>

datatype PatchError = MissingDocumentXml

definition patchPart :: "(jsstring \<rightharpoonup> jsstring) \<Rightarrow> DocumentXmlParts \<Rightarrow> DocumentXmlParts" where
  "patchPart replacements p =
     (case p of
        Chunk _ \<Rightarrow> p
      | ParagraphPart para \<Rightarrow>
          (case replacements (blockId para) of
             None \<Rightarrow> p
           | Some nextText \<Rightarrow>
               ParagraphPart (para\<lparr>xml := replaceParagraphTextInXml (xml para) nextText\<rparr>)))"

definition patchDocumentXml :: "jsstring \<Rightarrow> (jsstring \<rightharpoonup> jsstring) \<Rightarrow> jsstring" where
  "patchDocumentXml documentXml replacements =
     (let newParts = map (patchPart replacements) (parts (splitDocumentXmlIntoParts documentXml))
      in concat (map partXml newParts))"

definition patchDocxParagraphs ::
  "(string \<rightharpoonup> jsstring) \<Rightarrow> (jsstring \<rightharpoonup> jsstring) \<Rightarrow> PatchError + (string \<rightharpoonup> jsstring)" where
  "patchDocxParagraphs originalDocx replacements =
     (case originalDocx ''word/document.xml'' of
        None \<Rightarrow> Inl MissingDocumentXml
      | Some documentXml \<Rightarrow>
          Inr (originalDocx(''word/document.xml'' \<mapsto> patchDocumentXml documentXml replacements)))"


section \<open>Text utilities (analysis/textUtils.ts)\<close>

text \<open>
  \<open>normalizeText\<close>: \<open>\r\n\<close> becomes \<open>\n\<close>, every run of spaces and tabs becomes one
  space (\<open>collapseBlanks\<close>, whose flag says that the previous character was one of the
  run), and the result is trimmed. \<open>trim\<close> removes the white space of \<open>\s\<close> at both ends.
\<close>

primrec collapseBlanks :: "bool \<Rightarrow> jsstring \<Rightarrow> jsstring" where
  "collapseBlanks inRun [] = []"
| "collapseBlanks inRun (c # cs) =
     (if c = 0x20 \<or> c = 0x09
      then (if inRun then collapseBlanks True cs else 0x20 # collapseBlanks True cs)
      else c # collapseBlanks False cs)"

definition trim :: "jsstring \<Rightarrow> jsstring" where
  "trim s = rev (dropWhile isSpace (rev (dropWhile isSpace s)))"

definition normalizeText :: "jsstring \<Rightarrow> jsstring" where
  "normalizeText input = trim (collapseBlanks False (replaceAll [0x0D, 0x0A] [0x0A] input))"

text \<open>
  \<open>text.split(/\s+/g).filter(Boolean)\<close>: the maximal runs of characters that are not
  white space. The fold keeps the run being read and the runs read so far.
\<close>

definition splitOnSpace :: "jsstring \<Rightarrow> jsstring list" where
  "splitOnSpace s =
     (case foldl (\<lambda>(cur, acc) c.
                    if isSpace c then ([], if cur = [] then acc else acc @ [cur])
                    else (cur @ [c], acc)) ([], []) s of
        (cur, acc) \<Rightarrow> if cur = [] then acc else acc @ [cur])"

text \<open>
  \<open>tokenizeZh\<close>. The word segmentation library is the parameter \<open>jiebaCut\<close>, the function
  \<open>nodejieba.cut(text, true)\<close>; it returns \<open>None\<close> where the library throws, which the
  source catches.
\<close>

definition tokenizeZh :: "(jsstring \<Rightarrow> jsstring list option) \<Rightarrow> jsstring \<Rightarrow> jsstring list" where
  "tokenizeZh jiebaCut input =
     (let t = normalizeText input
      in if t = [] then []
         else (case jiebaCut t of
                 Some tokens \<Rightarrow> filter (\<lambda>x. x \<noteq> []) (map trim tokens)
               | None \<Rightarrow> filter (\<lambda>x. x \<noteq> []) (splitOnSpace t)))"


section \<open>Features (analysis/features.ts)\<close>

text \<open>
  The fields of \<open>ParagraphFeatures\<close> that the detector's rules read; the hit lists and
  the other fields only appear in the evidence texts. A count is a natural number and a
  ratio, variance, density or entropy the rational value of its double.
\<close>

record ParagraphFeatures =
  charCount :: nat
  sentenceCount :: nat
  sentenceLenVariance :: rat
  tokenCount :: nat
  tokenUniqueRatio :: rat
  bigramRepeatRatio :: rat
  trigramRepeatRatio :: rat
  templatePhraseCount :: nat
  connectiveCount :: nat
  strongClaimCount :: nat
  abstractNounCount :: nat
  pronounCount :: nat
  hasCitationMarker :: bool
  citationMarkerCount :: nat
  aiOpeningMatch :: bool
  symmetricMatch :: bool
  hollowConclusionMatch :: bool
  cognitiveMarkerDensity :: rat
  sentenceLenEntropy :: rat
  connectiveAtHeadRatio :: rat
  internalStructureShifts :: nat

text \<open>
  \<open>extractFeatures\<close>. Its lexicon tables (\<open>lexicons.ts\<close>) are not among the sources, and
  its statistics go through the segmentation library and the logarithm; what it measures
  from them is the parameter \<open>measured\<close>, a function of the paragraph text.
  \<open>charCount\<close> is \<open>text.length\<close>, as in the source.
\<close>

definition extractFeatures ::
  "(jsstring \<Rightarrow> ParagraphFeatures) \<Rightarrow> jsstring \<Rightarrow> ParagraphFeatures" where
  "extractFeatures measured paragraphText =
     (measured paragraphText)\<lparr>charCount := length paragraphText\<rparr>"


section \<open>Detection (analysis/detector.ts)\<close>

text \<open>
  A \<open>Set<string>\<close> of tokens is a finite set, \<open>size\<close> its cardinality. In \<open>jaccard\<close>
  the quotient is a double division.
\<close>

definition jaccard :: "jsstring set \<Rightarrow> jsstring set \<Rightarrow> rat" where
  "jaccard a b =
     (if card a = 0 \<or> card b = 0 then 0
      else (let inter = card (a \<inter> b);
                union = card a + card b - inter
            in if union \<noteq> 0 then fl (of_nat inter / of_nat union) else 0))"

text \<open>
  Reading an array out of range gives \<open>undefined\<close>, and reading a property of
  \<open>undefined\<close> throws a TypeError; \<open>nthOpt\<close> is the read, and \<open>TypeError\<close> the error.
\<close>

datatype JsError = TypeError

definition nthOpt :: "'a list \<Rightarrow> nat \<Rightarrow> 'a option" where
  "nthOpt xs i = (if i < length xs then Some (xs ! i) else None)"

text \<open>
  \<open>detectStructuralIsomorphism\<close>, on the pairs (text, index). \<open>connSet\<close> is the list of
  seven connectives of the source, in code units. \<open>isoWindow\<close> is one round of the loop
  for the window that starts at \<open>i\<close>: the indices it adds to the set.
\<close>

definition connSet :: "jsstring list" where
  "connSet = [[0x9996, 0x5148], [0x5176, 0x6B21], [0x518D, 0x6B21], [0x6700, 0x540E],
              [0x6B64, 0x5916], [0x540C, 0x65F6], [0x53E6, 0x5916]]"

definition connCount :: "jsstring \<Rightarrow> nat" where
  "connCount t = length (filter (\<lambda>w. indexOf w t \<noteq> None) connSet)"

definition isoWindow :: "(jsstring \<times> nat) list \<Rightarrow> nat \<Rightarrow> JsError + nat list" where
  "isoWindow ps i =
     (case (nthOpt ps i, nthOpt ps (i + 1), nthOpt ps (i + 2)) of
        (Some a, Some b, Some c) \<Rightarrow>
          (let heads = map (\<lambda>x. take 4 (trim (fst x))) [a, b, c];
               prefix2 = map (take 2) heads;
               three = [snd a, snd b, snd c]
           in if prefix2 ! 0 = prefix2 ! 1 \<and> prefix2 ! 1 = prefix2 ! 2
                 \<and> 2 \<le> length (prefix2 ! 0)
              then Inr three
              else if list_all (\<lambda>x. 2 \<le> connCount (fst x)) [a, b, c] then Inr three
              else Inr [])
      | _ \<Rightarrow> Inl TypeError)"

definition detectStructuralIsomorphism :: "(jsstring \<times> nat) list \<Rightarrow> JsError + nat set" where
  "detectStructuralIsomorphism ps =
     (if length ps < 3 then Inr {}
      else foldl (\<lambda>acc i.
                    case acc of
                      Inl e \<Rightarrow> Inl e
                    | Inr isomorphicIndices \<Rightarrow>
                        (case isoWindow ps i of
                           Inl e \<Rightarrow> Inl e
                         | Inr added \<Rightarrow> Inr (isomorphicIndices \<union> set added)))
             (Inr {}) [0..<length ps - 2])"

text \<open>
  The rules, in the order of the source. Each rule that fires pushes one signal; a
  decimal literal is the double nearest to it.
\<close>

definition sig :: "string \<Rightarrow> CategoryId \<Rightarrow> int \<Rightarrow> FindingSignal" where
  "sig name cat points = \<lparr>signalId = name, category = cat, score = points\<rparr>"

definition topicShift :: FindingSignal where
  "topicShift = sig ''logic_topic_shift'' logicCoherence 12"

text \<open>\<open>/^(...|...|...|...)[...]/.test(p.text.trim())\<close>: one of the four ordinals, then a comma.\<close>

definition listLikeHead :: "jsstring \<Rightarrow> bool" where
  "listLikeHead t =
     (case t of
        a # b # c # _ \<Rightarrow>
          [a, b] \<in> {[0x9996, 0x5148], [0x5176, 0x6B21], [0x518D, 0x6B21], [0x6700, 0x540E]}
          \<and> c \<in> {0xFF0C, 0x2C, 0x3001}
      | _ \<Rightarrow> False)"

definition paragraphSignals ::
  "ParagraphFeatures \<Rightarrow> jsstring \<Rightarrow> rat \<Rightarrow> rat \<Rightarrow> bool \<Rightarrow> FindingSignal list" where
  "paragraphSignals f ptext simPrev simNext isomorphic =
     (let connPer100 = (if charCount f \<noteq> 0
                        then fl (fl (of_nat (connectiveCount f) / of_nat (charCount f)) * 100)
                        else 0);
          minSim = min simPrev simNext;
          claimRatio = (if 0 < sentenceCount f
                        then fl (of_nat (strongClaimCount f) / of_nat (sentenceCount f))
                        else 0)
      in concat
        [if 2 \<le> sentenceCount f \<and> sentenceLenVariance f < 35 \<and> 60 \<le> charCount f
         then [sig ''lang_uniform_sentence'' languageStats 15] else [],
         if fl (6 / 100) < bigramRepeatRatio f \<or> fl (3 / 100) < trigramRepeatRatio f
         then [sig ''lang_ngram_repeat'' languageStats 16] else [],
         if 15 \<le> tokenCount f \<and> tokenUniqueRatio f < fl (55 / 100)
         then [sig ''lang_low_diversity'' languageStats 12] else [],
         if 1 \<le> templatePhraseCount f
         then [sig ''style_template_phrases'' styleHabits 18] else [],
         if 2 \<le> connectiveCount f \<and> fl (8 / 10) \<le> connPer100
         then [sig ''style_connectives_dense'' styleHabits 14] else [],
         if 2 \<le> abstractNounCount f \<and> 40 \<le> charCount f
         then [sig ''style_abstract_dense'' styleHabits 12] else [],
         if 3 \<le> pronounCount f \<and> 40 \<le> charCount f
         then [sig ''logic_pronoun_dense'' logicCoherence 10] else [],
         if 50 \<le> charCount f \<and> minSim < fl (8 / 100)
         then [topicShift] else [],
         if fl (3 / 10) < claimRatio \<and> citationMarkerCount f \<le> 1
         then [sig ''veri_strong_claim_no_cite'' verifiability 18]
         else if 1 \<le> strongClaimCount f \<and> \<not> hasCitationMarker f
         then [sig ''veri_claim_no_cite_weak'' verifiability 12] else [],
         if 3 \<le> strongClaimCount f \<and> citationMarkerCount f \<le> 1
         then [sig ''veri_cite_imbalance'' verifiability 16] else [],
         if listLikeHead (trim ptext) \<and> 2 \<le> connectiveCount f
         then [sig ''struct_list_like'' structureFormat 12] else [],
         if aiOpeningMatch f
         then [sig ''ai_opening_pattern'' aiPattern 14] else [],
         if symmetricMatch f
         then [sig ''ai_symmetric_structure'' aiPattern 10] else [],
         if hollowConclusionMatch f
         then [sig ''ai_hollow_conclusion'' aiPattern 12] else [],
         if 200 \<le> charCount f \<and> sentenceLenVariance f < 40 \<and> tokenUniqueRatio f < 1 / 2
         then [sig ''ai_long_homogeneous'' aiPattern 10] else [],
         if 80 \<le> charCount f \<and> cognitiveMarkerDensity f < 3 / 2
         then [sig ''cog_low_density'' cognitiveFeatures 14] else [],
         if 3 \<le> sentenceCount f \<and> sentenceLenEntropy f < fl (22 / 10)
         then [sig ''cog_low_entropy'' cognitiveFeatures 12] else [],
         if 2 \<le> connectiveCount f \<and> fl (9 / 10) \<le> connectiveAtHeadRatio f
         then [sig ''cog_connective_head_only'' cognitiveFeatures 10] else [],
         if 4 \<le> sentenceCount f \<and> internalStructureShifts f = 0
         then [sig ''cog_flat_structure'' cognitiveFeatures 10] else [],
         if isomorphic
         then [sig ''ai_structural_isomorphism'' aiPattern 12] else []])"

text \<open>
  The similarities to the neighbours of the paragraph at position \<open>i\<close>: a neighbour that
  is missing counts as similarity 1.
\<close>

definition neighbourSims :: "jsstring set list \<Rightarrow> nat \<Rightarrow> JsError + rat \<times> rat" where
  "neighbourSims perParaTokens i =
     (let prev = (if 0 < i then nthOpt perParaTokens (i - 1) else None);
          next = (if i + 1 < length perParaTokens then nthOpt perParaTokens (i + 1) else None)
      in case nthOpt perParaTokens i of
           None \<Rightarrow> Inl TypeError
         | Some cur \<Rightarrow>
             Inr (case prev of None \<Rightarrow> 1 | Some a \<Rightarrow> jaccard a cur,
                  case next of None \<Rightarrow> 1 | Some b \<Rightarrow> jaccard cur b))"

text \<open>The callback of \<open>paragraphs.map((p, i) => ...)\<close>.\<close>

definition paragraphReportAt ::
  "(jsstring \<Rightarrow> ParagraphFeatures) \<Rightarrow> jsstring set list \<Rightarrow> nat set \<Rightarrow> Block \<Rightarrow> nat
     \<Rightarrow> JsError + ParagraphReport" where
  "paragraphReportAt measured perParaTokens isomorphicSet p i =
     (let f = extractFeatures measured (blockText p)
      in case neighbourSims perParaTokens i of
           Inl e \<Rightarrow> Inl e
         | Inr (simPrev, simNext) \<Rightarrow>
             Inr (scoreParagraph p
                    (paragraphSignals f (blockText p) simPrev simNext
                       (blockIndex p \<in> isomorphicSet))))"

text \<open>The first error of a list of results, or all the values.\<close>

primrec collect :: "('e + 'a) list \<Rightarrow> 'e + 'a list" where
  "collect [] = Inr []"
| "collect (x # xs) =
     (case x of
        Inl e \<Rightarrow> Inl e
      | Inr v \<Rightarrow> (case collect xs of Inl e \<Rightarrow> Inl e | Inr vs \<Rightarrow> Inr (v # vs)))"

text \<open>The three fixed texts of \<open>limitations\<close>.\<close>

datatype Limitation = RiskHintNotEvidence | FalsePositivesAndNegatives | NoFactChecking

record DocumentReport =
  generatedAt :: int
  overallRiskScore :: int
  overallRiskLevel :: RiskLevel
  paragraphReports :: "ParagraphReport list"
  limitations :: "Limitation list"

definition tokenSet :: "(jsstring \<Rightarrow> jsstring list option) \<Rightarrow> jsstring \<Rightarrow> jsstring set" where
  "tokenSet jiebaCut t = set (filter (\<lambda>x. 1 < length x) (tokenizeZh jiebaCut t))"

text \<open>
  \<open>detectAigcRisk\<close>; its argument \<open>paragraphs\<close> is written \<open>blocks\<close>. Beside the
  blocks it takes the segmentation library \<open>jiebaCut\<close>, the measured features and
  \<open>now\<close>, the value that \<open>Date.now()\<close> returns when the report is built. The result
  is \<open>Inl\<close> where the source would throw.
\<close>

definition detectAigcRisk ::
  "(jsstring \<Rightarrow> jsstring list option) \<Rightarrow> (jsstring \<Rightarrow> ParagraphFeatures) \<Rightarrow> int \<Rightarrow> Block list
     \<Rightarrow> JsError + DocumentReport" where
  "detectAigcRisk jiebaCut measured now blocks =
     (let perParaTokens = map (\<lambda>p. tokenSet jiebaCut (blockText p)) blocks
      in case detectStructuralIsomorphism (map (\<lambda>p. (blockText p, blockIndex p)) blocks) of
           Inl e \<Rightarrow> Inl e
         | Inr isomorphicSet \<Rightarrow>
             (case collect (map (\<lambda>(p, i). paragraphReportAt measured perParaTokens isomorphicSet p i)
                             (zip blocks [0..<length blocks])) of
                Inl e \<Rightarrow> Inl e
              | Inr reports \<Rightarrow>
                  Inr \<lparr>generatedAt = now,
                       overallRiskScore = fst (documentScore reports),
                       overallRiskLevel = snd (documentScore reports),
                       paragraphReports = reports,
                       limitations =
                         [RiskHintNotEvidence, FalsePositivesAndNegatives, NoFactChecking]\<rparr>))"

text \<open>
  For the proofs: the report of the block at position \<open>i\<close>, with the reads of the
  callback resolved.
\<close>

definition reportOfBlock ::
  "(jsstring \<Rightarrow> jsstring list option) \<Rightarrow> (jsstring \<Rightarrow> ParagraphFeatures) \<Rightarrow> Block list
     \<Rightarrow> nat set \<Rightarrow> nat \<Rightarrow> ParagraphReport" where
  "reportOfBlock jiebaCut measured blocks isomorphicSet i =
     (let toks = map (\<lambda>p. tokenSet jiebaCut (blockText p)) blocks; p = blocks ! i
      in scoreParagraph p
           (paragraphSignals (extractFeatures measured (blockText p)) (blockText p)
              (if 0 < i then jaccard (toks ! (i - 1)) (toks ! i) else 1)
              (if i + 1 < length toks then jaccard (toks ! i) (toks ! (i + 1)) else 1)
              (blockIndex p \<in> isomorphicSet)))"


section \<open>Concrete inputs\<close>

text \<open>Three signals as the detector emits them, a block, and reports of a given length and score.\<close>

definition sigA :: FindingSignal where
  "sigA = \<lparr>signalId = ''lang_uniform_sentence'', category = languageStats, score = 15\<rparr>"

definition sigB :: FindingSignal where
  "sigB = \<lparr>signalId = ''style_template_phrases'', category = styleHabits, score = 18\<rparr>"

definition sigC :: FindingSignal where
  "sigC = \<lparr>signalId = ''veri_claim_no_cite_weak'', category = verifiability, score = 12\<rparr>"

definition blockA :: Block where
  "blockA = \<lparr>blockId = lit ''p-0'', blockIndex = 0, blockKind = plainParagraph,
             blockText = lit ''abc''\<rparr>"

definition reportOf :: "nat \<Rightarrow> int \<Rightarrow> ParagraphReport" where
  "reportOf n s =
     \<lparr>paragraphId = lit ''p-0'', reportIndex = 0, reportKind = plainParagraph,
      reportText = replicate n 0x61, riskScore = s, riskLevel = riskLevelOf s, signals = []\<rparr>"

text \<open>
  Documents: a paragraph in a table cell; a stray close tag before an open tag and a
  paragraph; and a paragraph whose \<open><w:t>\<close> carries the attribute \<open>b="$'"\<close> and that
  holds a nested paragraph, followed by a second paragraph.
\<close>

definition docTable :: jsstring where
  "docTable = lit ''<w:tc><w:p></w:p></w:tc>''"

definition cellPara :: DocxParagraph where
  "cellPara = \<lparr>blockId = lit ''p-0'', blockIndex = 0, blockKind = tableCellParagraph,
               blockText = [], xml = lit ''<w:p></w:p>''\<rparr>"

definition docStray :: jsstring where
  "docStray = lit ''</w:tc><w:tc><w:p></w:p>''"

definition strayPara :: DocxParagraph where
  "strayPara = \<lparr>blockId = lit ''p-0'', blockIndex = 0, blockKind = plainParagraph,
                blockText = [], xml = lit ''<w:p></w:p>''\<rparr>"

definition docNested :: jsstring where
  "docNested = lit ''<w:p><w:t b='' @ [dquote] @ lit ''$'' @ [apos] @ [dquote]
     @ lit ''>c</w:t><w:p></w:p></w:p><w:p><w:t>e</w:t></w:p>''"

text \<open>Replacement maps and an archive.\<close>

definition onlyFirst :: "jsstring \<rightharpoonup> jsstring" where
  "onlyFirst = [lit ''p-0'' \<mapsto> lit ''Z'']"

definition otherId :: "jsstring \<rightharpoonup> jsstring" where
  "otherId = [lit ''p-7'' \<mapsto> lit ''Z'']"

definition archive :: "string \<rightharpoonup> jsstring" where
  "archive = [''word/document.xml'' \<mapsto> docTable]"

text \<open>
  A segmentation library that always throws, and one that cuts a text into its single
  characters; a feature record without lexicon hits or repetition; and three
  blocks: an empty one, one of fifty letters and one of two punctuation marks.
\<close>

definition noCut :: "jsstring \<Rightarrow> jsstring list option" where
  "noCut t = None"

definition plainFeatures :: "jsstring \<Rightarrow> ParagraphFeatures" where
  "plainFeatures t =
     \<lparr>charCount = 0, sentenceCount = 0, sentenceLenVariance = 0, tokenCount = 0,
      tokenUniqueRatio = 0, bigramRepeatRatio = 0, trigramRepeatRatio = 0,
      templatePhraseCount = 0, connectiveCount = 0, strongClaimCount = 0,
      abstractNounCount = 0, pronounCount = 0, hasCitationMarker = False,
      citationMarkerCount = 0, aiOpeningMatch = False, symmetricMatch = False,
      hollowConclusionMatch = False, cognitiveMarkerDensity = 5, sentenceLenEntropy = 3,
      connectiveAtHeadRatio = 0, internalStructureShifts = 0\<rparr>"

definition charCut :: "jsstring \<Rightarrow> jsstring list option" where
  "charCut t = Some (map (\<lambda>c. [c]) t)"

definition threeBlocks :: "Block list" where
  "threeBlocks =
     [\<lparr>blockId = lit ''p-0'', blockIndex = 0, blockKind = plainParagraph, blockText = []\<rparr>,
      \<lparr>blockId = lit ''p-1'', blockIndex = 1, blockKind = plainParagraph,
         blockText = replicate 50 0x61\<rparr>,
      \<lparr>blockId = lit ''p-2'', blockIndex = 2, blockKind = plainParagraph, blockText = lit ''?!''\<rparr>]"


section \<open>Rounding to a double\<close>

lemma fl_zero [simp]: "fl 0 = 0"
  by (simp add: fl_def)

lemma bitlen_lower: "0 < a \<Longrightarrow> (2::rat) powi (bitlen a - 1) \<le> of_int a"
proof -
  assume a: "0 < a"
  then have "(2::int) ^ nat (bitlen a - 1) \<le> a" using bitlen_bounds by blast
  then have "(of_int ((2::int) ^ nat (bitlen a - 1)) :: rat) \<le> of_int a"
    by (simp only: of_int_le_iff)
  moreover have "0 \<le> bitlen a - 1" using a bitlen_eq_zero_iff[of a] bitlen_nonneg[of a] by linarith
  ultimately show ?thesis by (simp add: power_int_def)
qed

lemma bitlen_upper: "0 < b \<Longrightarrow> (of_int b :: rat) < 2 powi (bitlen b)"
proof -
  assume b: "0 < b"
  then have "b < (2::int) ^ nat (bitlen b)" using bitlen_bounds by blast
  then have "(of_int b :: rat) < of_int ((2::int) ^ nat (bitlen b))"
    by (simp only: of_int_less_iff)
  moreover have "0 \<le> bitlen b" by (rule bitlen_nonneg)
  ultimately show ?thesis by (simp add: power_int_def)
qed

lemma fl_pos: assumes "0 < x" shows "0 < fl x"
proof -
  obtain a b where ab: "quotient_of \<bar>x\<bar> = (a, b)" by (cases "quotient_of \<bar>x\<bar>")
  have bpos: "0 < b" using ab quotient_of_denom_pos by blast
  have xab: "\<bar>x\<bar> = of_int a / of_int b" using ab quotient_of_div by blast
  have apos: "0 < a" using assms xab bpos by (simp add: zero_less_divide_iff)
  define k where "k = bitlen a - bitlen b"
  define e where "e = (if 2 powi k \<le> \<bar>x\<bar> then k else k - 1)"
  define u :: rat where "u = 2 powi (e - 52)"
  define q where "q = \<bar>x\<bar> / u"
  define n where "n = \<lfloor>q\<rfloor>"
  define m where "m = (if q - of_int n < 1 / 2 then n else if 1 / 2 < q - of_int n then n + 1
              else if even n then n else n + 1)"
  have flx: "fl x = sgn x * of_int m * u"
    using assms ab by (simp add: fl_def Let_def k_def e_def u_def q_def n_def m_def)
  have upos: "0 < u" by (simp add: u_def)
  have low: "2 powi (k - 1) \<le> \<bar>x\<bar>"
  proof -
    have "(2::rat) powi (k - 1) = 2 powi (bitlen a - 1) / 2 powi (bitlen b)"
      by (simp add: k_def power_int_diff)
    also have "\<dots> \<le> of_int a / 2 powi (bitlen b)"
      using bitlen_lower[OF apos] by (simp add: divide_right_mono)
    also have "\<dots> \<le> of_int a / of_int b"
      using bitlen_upper[OF bpos] apos bpos by (simp add: frac_le)
    finally show ?thesis by (simp add: xab)
  qed
  have e_le: "2 powi e \<le> \<bar>x\<bar>" using low by (simp add: e_def)
  have "(1::rat) \<le> 2 powi 52" by simp
  have "2 powi e / u = (2::rat) powi 52" by (simp add: u_def power_int_diff)
  then have "(2::rat) powi 52 \<le> q" unfolding q_def using e_le upos
    by (metis divide_right_mono less_imp_le)
  then have "1 \<le> q" by simp
  then have "1 \<le> n" by (simp add: n_def)
  then have "0 < m" by (simp add: m_def)
  then show ?thesis using assms upos by (simp add: flx)
qed

text \<open>
  The doubles of \<open>1\<close>, \<open>100\<close>, \<open>0.5\<close> and \<open>0.1\<close>: the first three are exact, and
  \<open>0.1\<close> is \<open>3602879701896397 / 2 ^ 55\<close>.
\<close>

lemma fl_known_values:
  "fl 1 = 1 \<and> fl 100 = 100 \<and> fl (1 / 2) = 1 / 2
   \<and> fl (1 / 10) = 3602879701896397 / 36028797018963968"
  by code_simp

lemma fl_nonneg: "0 \<le> x \<Longrightarrow> 0 \<le> fl x"
  using fl_pos[of x] by (cases "x = 0") (auto simp: less_le)



section \<open>Paragraph scoring\<close>

lemma foldl_score: "foldl (\<lambda>a s. a + score s) a sigs = a + sum_list (map score sigs)"
  by (induction sigs arbitrary: a) simp_all

lemma baseScore_sum: "baseScore sigs = sum_list (map score sigs)"
  by (simp add: baseScore_def foldl_score)

lemma baseScore_mset: "mset sigs' = mset sigs \<Longrightarrow> baseScore sigs' = baseScore sigs"
proof -
  assume h: "mset sigs' = mset sigs"
  have "sum_list (map score sigs') = sum_mset (image_mset score (mset sigs'))"
    by (metis mset_map sum_mset_sum_list)
  also have "\<dots> = sum_mset (image_mset score (mset sigs))" by (simp add: h)
  also have "\<dots> = sum_list (map score sigs)" by (metis mset_map sum_mset_sum_list)
  finally show ?thesis by (simp add: baseScore_sum)
qed

lemma synergyBonus_mset: "mset sigs' = mset sigs \<Longrightarrow> synergyBonus sigs' = synergyBonus sigs"
proof -
  assume h: "mset sigs' = mset sigs"
  have l: "length sigs' = length sigs" using h by (rule mset_eq_length)
  have s: "set sigs' = set sigs" using h by (rule mset_eq_setD)
  show ?thesis by (simp add: synergyBonus_def l s)
qed

lemma synergyBonus_unfold:
  "synergyBonus sigs =
     (if 5 \<le> length sigs then 25 else if 4 \<le> length sigs then 18
      else if 3 \<le> length sigs then 10 else 0)
     + (if 3 \<le> card (category ` set sigs) then 8 else 0)"
  by (simp add: synergyBonus_def Let_def)

lemma clamp_int:
  "clamp (x::int) 0 100 = (if x < 0 then 0 else if 100 < x then 100 else x)"
  by (simp add: clamp_def min_def max_def)

text \<open>
  Claim C2. The risk score of a paragraph report is the sum of the scores of its signals
  plus the synergy bonus (25 for five or more signals, else 18 for four, else 10 for
  three, else 0, and 8 more when the signals span three or more distinct categories),
  clamped to \<open>[0, 100]\<close>; its tier is low below 35, medium below 70 and high from 70;
  and the score does not depend on the order of the signals: any rearrangement of the
  signal list gives the same score.
\<close>

theorem paragraph_score_contract:
  "riskScore (scoreParagraph p sigs) =
     (let raw = sum_list (map score sigs)
                + (if 5 \<le> length sigs then 25 else if 4 \<le> length sigs then 18
                   else if 3 \<le> length sigs then 10 else 0)
                + (if 3 \<le> card (category ` set sigs) then 8 else 0)
      in if raw < 0 then 0 else if 100 < raw then 100 else raw)
   \<and> riskLevel (scoreParagraph p sigs) =
     (if riskScore (scoreParagraph p sigs) < 35 then Low
      else if riskScore (scoreParagraph p sigs) < 70 then Medium else High)
   \<and> (mset sigs' = mset sigs \<longrightarrow>
        riskScore (scoreParagraph p sigs') = riskScore (scoreParagraph p sigs))"
proof (intro conjI impI)
  show "riskScore (scoreParagraph p sigs) =
     (let raw = sum_list (map score sigs)
                + (if 5 \<le> length sigs then 25 else if 4 \<le> length sigs then 18
                   else if 3 \<le> length sigs then 10 else 0)
                + (if 3 \<le> card (category ` set sigs) then 8 else 0)
      in if raw < 0 then 0 else if 100 < raw then 100 else raw)"
  proof -
    have "riskScore (scoreParagraph p sigs) = clamp (baseScore sigs + synergyBonus sigs) 0 100"
      by (simp add: scoreParagraph_def paragraphRiskScore_def)
    also have "\<dots> = clamp (sum_list (map score sigs)
                + (if 5 \<le> length sigs then 25 else if 4 \<le> length sigs then 18
                   else if 3 \<le> length sigs then 10 else 0)
                + (if 3 \<le> card (category ` set sigs) then 8 else 0)) 0 100"
      by (simp only: baseScore_sum synergyBonus_unfold add.assoc)
    finally show ?thesis
      by (simp only: clamp_int Let_def)
  qed
  show "riskLevel (scoreParagraph p sigs) =
     (if riskScore (scoreParagraph p sigs) < 35 then Low
      else if riskScore (scoreParagraph p sigs) < 70 then Medium else High)"
    by (simp add: scoreParagraph_def riskLevelOf_def)
  assume h: "mset sigs' = mset sigs"
  show "riskScore (scoreParagraph p sigs') = riskScore (scoreParagraph p sigs)"
    using baseScore_mset[OF h] synergyBonus_mset[OF h]
    by (simp add: scoreParagraph_def paragraphRiskScore_def)
qed

theorem paragraph_score_contract_witness:
  "mset [sigC, sigA, sigB] = mset [sigA, sigB, sigC]
   \<and> riskScore (scoreParagraph blockA [sigC, sigA, sigB]) = 63
   \<and> riskScore (scoreParagraph blockA [sigA, sigB, sigC]) = 63
   \<and> riskLevel (scoreParagraph blockA [sigA, sigB, sigC]) = Medium"
proof -
  have m: "mset [sigC, sigA, sigB] = mset [sigA, sigB, sigC]" by (simp add: add.commute)
  have c: "card (category ` set [sigA, sigB, sigC]) = 3"
    by (simp add: sigA_def sigB_def sigC_def card_insert_if)
  show ?thesis
    using paragraph_score_contract [of blockA "[sigA, sigB, sigC]" "[sigC, sigA, sigB]"] m c
    by (simp add: sigA_def sigB_def sigC_def Let_def)
qed

lemma tier_bonus_mono:
  "(if 5 \<le> (n::nat) then 25 else if 4 \<le> n then 18 else if 3 \<le> n then 10 else (0::int))
   \<le> (if 5 \<le> Suc n then 25 else if 4 \<le> Suc n then 18 else if 3 \<le> Suc n then 10 else 0)"
  by simp

lemma synergyBonus_mono: "synergyBonus (xs @ ys) \<le> synergyBonus (xs @ s # ys)"
proof -
  have "category ` set (xs @ ys) \<subseteq> category ` set (xs @ s # ys)" by auto
  then have c: "card (category ` set (xs @ ys)) \<le> card (category ` set (xs @ s # ys))"
    by (intro card_mono) simp_all
  have l: "length (xs @ s # ys) = Suc (length (xs @ ys))" by simp
  show ?thesis
    unfolding synergyBonus_unfold l
    using c tier_bonus_mono[of "length (xs @ ys)"]
    by (auto split: if_splits)
qed

text \<open>
  Claim C8. Paragraph scoring is monotone in the signals: adding one more signal with a
  non-negative score, at any position of the signal list, never lowers the risk score.
\<close>

theorem paragraph_score_monotone:
  "0 \<le> score s \<Longrightarrow> paragraphRiskScore (xs @ ys) \<le> paragraphRiskScore (xs @ s # ys)"
proof -
  assume h: "0 \<le> score s"
  have "baseScore (xs @ ys) \<le> baseScore (xs @ s # ys)" using h by (simp add: baseScore_sum)
  then have "baseScore (xs @ ys) + synergyBonus (xs @ ys)
      \<le> baseScore (xs @ s # ys) + synergyBonus (xs @ s # ys)"
    using synergyBonus_mono[of xs ys s] by linarith
  then show ?thesis by (simp add: paragraphRiskScore_def clamp_def min_def max_def)
qed

theorem paragraph_score_monotone_witness:
  "0 \<le> score sigC \<and> paragraphRiskScore [sigA, sigB] = 33
   \<and> paragraphRiskScore [sigA, sigC, sigB] = 63"
proof -
  have c: "card (category ` set [sigA, sigC, sigB]) = 3" "card (category ` set [sigA, sigB]) = 2"
    by (simp_all add: sigA_def sigB_def sigC_def card_insert_if)
  have "paragraphRiskScore ([sigA] @ [sigB]) \<le> paragraphRiskScore ([sigA] @ sigC # [sigB])"
    using paragraph_score_monotone [of sigC "[sigA]" "[sigB]"] by (simp add: sigC_def)
  then show ?thesis using c
    by (simp add: paragraphRiskScore_def baseScore_def synergyBonus_unfold clamp_def
        sigA_def sigB_def sigC_def)
qed



section \<open>Document aggregation\<close>

lemma aggregateLoop_closed:
  "aggregateLoop rs (ai, tot) =
     (foldl (\<lambda>a x. fl (a + x)) ai
        (map (\<lambda>r. fl (of_nat (length (reportText r)) * fl (of_int (riskScore r) / 100)))
           (filter (\<lambda>r. 35 \<le> riskScore r) rs)),
      foldl (\<lambda>a x. fl (a + x)) tot (map (\<lambda>r. of_nat (length (reportText r))) rs))"
  by (induction rs arbitrary: ai tot) (simp_all add: Let_def)

lemma floatTotal_pos:
  "0 \<le> t \<Longrightarrow>
   (0 < foldl (\<lambda>a x. fl (a + x)) t (map (\<lambda>r. of_nat (length (reportText r))) rs))
     = (0 < t \<or> 0 < (\<Sum>r\<leftarrow>rs. length (reportText r)))"
proof (induction rs arbitrary: t)
  case Nil
  then show ?case by simp
next
  case (Cons r rs)
  let ?l = "of_nat (length (reportText r)) :: rat"
  have nn: "0 \<le> fl (t + ?l)" using Cons.prems by (intro fl_nonneg) simp
  have "(0 < fl (t + ?l)) = (0 < t \<or> 0 < length (reportText r))"
  proof (cases "t + ?l = 0")
    case True
    then have "t = 0" "?l = 0" using Cons.prems by (simp_all add: add_nonneg_eq_0_iff)
    then show ?thesis by simp
  next
    case False
    then have "0 < t + ?l" using Cons.prems by (simp add: less_le)
    then have "0 < fl (t + ?l)" by (rule fl_pos)
    moreover have "0 < t \<or> 0 < length (reportText r)"
      using False Cons.prems by (cases "length (reportText r)") auto
    ultimately show ?thesis by simp
  qed
  then show ?case using Cons.IH[OF nn] by auto
qed

lemma aggregateLoop_low:
  "\<forall>r\<in>set rs. riskScore r < 35 \<Longrightarrow> fst (aggregateLoop rs (ai, tot)) = ai"
  by (induction rs arbitrary: ai tot) (simp_all add: Let_def)

lemma clamp_bounds: "(0::int) \<le> clamp x 0 100 \<and> clamp x 0 100 \<le> 100"
  by (simp add: clamp_def)

lemma jsRound_zero: "jsRound 0 = 0"
  by (simp add: jsRound_def floor_eq_iff)

lemma overall_60_71: "overallRiskScoreOf [reportOf 60 71, reportOf 60 0] = 35"
  by code_simp

lemma exact_60_71: "exactDocumentScore [reportOf 60 71, reportOf 60 0] = 36"
  by code_simp

text \<open>
  Claim C1, as stated, fails: a first paragraph of 60 characters with score 71 and a second
  of 60 characters with score 0 have the exact weighted score \<open>71 / 2\<close>, which rounds to
  36 (ties up, and ties to even as well), while in the double arithmetic of the code
  \<open>60 * (71 / 100)\<close> is \<open>42.599999999999994\<close> and the score is 35.
\<close>

theorem document_score_exact_counterexample:
  "overallRiskScoreOf [reportOf 60 71, reportOf 60 0] = 35
   \<and> exactDocumentScore [reportOf 60 71, reportOf 60 0] = 36"
  using overall_60_71 exact_60_71 by (rule conjI)

text \<open>
  Claim C1, amended. The document score is the specification's formula evaluated in double
  arithmetic in the order of the code: the products \<open>len(p) \<times> (p.riskScore / 100)\<close> of the
  paragraphs with score at least 35 are summed from left to right, the sum is divided by
  the total length and then multiplied by 100, every operation rounded to a double, and
  the result is rounded to the nearest integer and clamped to \<open>[0, 100]\<close>. The score is 0
  when the total character length is 0; it is always between 0 and 100; it is 0 when
  every paragraph scores below 35; and the document tier is low below 35, medium below 70
  and high from 70.
\<close>

theorem document_score_double_arithmetic:
  "overallRiskScoreOf reports =
     (if 0 < (\<Sum>r\<leftarrow>reports. length (reportText r))
      then clamp (jsRound (fl (fl (
             floatSum (map (\<lambda>r. fl (of_nat (length (reportText r)) * fl (of_int (riskScore r) / 100)))
                         (filter (\<lambda>r. 35 \<le> riskScore r) reports))
             / floatSum (map (\<lambda>r. of_nat (length (reportText r))) reports)) * 100))) 0 100
      else 0)
   \<and> 0 \<le> overallRiskScoreOf reports \<and> overallRiskScoreOf reports \<le> 100
   \<and> ((\<Sum>r\<leftarrow>reports. length (reportText r)) = 0 \<longrightarrow> overallRiskScoreOf reports = 0)
   \<and> ((\<forall>r\<in>set reports. riskScore r < 35) \<longrightarrow> overallRiskScoreOf reports = 0)
   \<and> documentScore reports =
       (overallRiskScoreOf reports,
        if overallRiskScoreOf reports < 35 then Low
        else if overallRiskScoreOf reports < 70 then Medium else High)"
proof -
  have closed: "overallRiskScoreOf reports =
     (if 0 < (\<Sum>r\<leftarrow>reports. length (reportText r))
      then clamp (jsRound (fl (fl (
             floatSum (map (\<lambda>r. fl (of_nat (length (reportText r)) * fl (of_int (riskScore r) / 100)))
                         (filter (\<lambda>r. 35 \<le> riskScore r) reports))
             / floatSum (map (\<lambda>r. of_nat (length (reportText r))) reports)) * 100))) 0 100
      else 0)"
  proof (cases "0 < (\<Sum>r\<leftarrow>reports. length (reportText r))")
    case True
    then have "0 < foldl (\<lambda>a x. fl (a + x)) 0 (map (\<lambda>r. of_nat (length (reportText r))) reports)"
      using floatTotal_pos[of 0 reports] by simp
    then show ?thesis using True
      by (simp only: overallRiskScoreOf_def aggregateLoop_closed floatSum_def prod.case if_True)
  next
    case False
    then have "\<not> 0 < foldl (\<lambda>a x. fl (a + x)) 0 (map (\<lambda>r. of_nat (length (reportText r))) reports)"
      using floatTotal_pos[of 0 reports] by simp
    then show ?thesis using False
      by (simp only: overallRiskScoreOf_def aggregateLoop_closed floatSum_def prod.case if_False)
  qed
  have bounds: "0 \<le> overallRiskScoreOf reports \<and> overallRiskScoreOf reports \<le> 100"
    using clamp_bounds by (simp add: overallRiskScoreOf_def split: prod.splits)
  have empty: "(\<Sum>r\<leftarrow>reports. length (reportText r)) = 0 \<longrightarrow> overallRiskScoreOf reports = 0"
  proof
    assume "(\<Sum>r\<leftarrow>reports. length (reportText r)) = 0"
    then have "\<not> 0 < (\<Sum>r\<leftarrow>reports. length (reportText r))" by linarith
    then show "overallRiskScoreOf reports = 0" by (simp only: closed if_False)
  qed
  have low: "(\<forall>r\<in>set reports. riskScore r < 35) \<longrightarrow> overallRiskScoreOf reports = 0"
  proof
    assume h: "\<forall>r\<in>set reports. riskScore r < 35"
    obtain ai tot where at: "aggregateLoop reports (0, 0) = (ai, tot)"
      by (cases "aggregateLoop reports (0, 0)")
    have "ai = 0" using aggregateLoop_low[OF h, of 0 0] at by simp
    then show "overallRiskScoreOf reports = 0"
      by (simp add: overallRiskScoreOf_def at jsRound_zero clamp_def)
  qed
  have tier: "documentScore reports =
       (overallRiskScoreOf reports,
        if overallRiskScoreOf reports < 35 then Low
        else if overallRiskScoreOf reports < 70 then Medium else High)"
    by (simp add: documentScore_def riskLevelOf_def Let_def)
  show ?thesis using closed bounds empty low tier by blast
qed


theorem document_score_double_arithmetic_witness:
  "(\<Sum>r\<leftarrow>[reportOf 0 71, reportOf 0 20]. length (reportText r)) = 0
   \<and> overallRiskScoreOf [reportOf 0 71, reportOf 0 20] = 0
   \<and> riskScore (reportOf 60 34) < 35 \<and> riskScore (reportOf 60 0) < 35
   \<and> overallRiskScoreOf [reportOf 60 34, reportOf 60 0] = 0
   \<and> documentScore [reportOf 60 71, reportOf 60 0] = (35, Medium)"
proof -
  have a: "(\<Sum>r\<leftarrow>[reportOf 0 71, reportOf 0 20]. length (reportText r)) = 0"
    by (simp add: reportOf_def)
  have b: "\<forall>r\<in>set [reportOf 60 34, reportOf 60 0]. riskScore r < 35"
    by (simp add: reportOf_def)
  have c: "riskScore (reportOf 60 34) < 35 \<and> riskScore (reportOf 60 0) < 35"
    by (simp add: reportOf_def)
  show ?thesis
    using document_score_double_arithmetic [of "[reportOf 0 71, reportOf 0 20]"]
      document_score_double_arithmetic [of "[reportOf 60 34, reportOf 60 0]"]
      document_score_double_arithmetic [of "[reportOf 60 71, reportOf 60 0]"] a b c overall_60_71
    by simp
qed


section \<open>XML text escaping\<close>

lemma lits:
  "lit ''&amp;'' = [0x26, 0x61, 0x6D, 0x70, 0x3B]"
  "lit ''&lt;'' = [0x26, 0x6C, 0x74, 0x3B]"
  "lit ''&gt;'' = [0x26, 0x67, 0x74, 0x3B]"
  "lit ''&quot;'' = [0x26, 0x71, 0x75, 0x6F, 0x74, 0x3B]"
  "lit ''&apos;'' = [0x26, 0x61, 0x70, 0x6F, 0x73, 0x3B]"
  "lit ''&'' = [0x26]" "lit ''<'' = [0x3C]" "lit ''>'' = [0x3E]"
  by (simp_all add: lit_def)

lemma replaceAll_single:
  "replaceAll [c] rep s = concat (map (\<lambda>x. if x = c then rep else [x]) s)"
  by (induction s) auto

lemma replaceAll_single_concat:
  "replaceAll [c] rep (concat (map f s)) = concat (map (\<lambda>x. replaceAll [c] rep (f x)) s)"
  by (induction s) (simp_all add: replaceAll_single)

lemma encode_map: "encodeXmlText s = concat (map entity s)"
proof -
  have "encodeXmlText s = concat (map (\<lambda>x. replaceAll [apos] (lit ''&apos;'')
       (replaceAll [dquote] (lit ''&quot;'')
         (replaceAll [0x3E] (lit ''&gt;'')
           (replaceAll [0x3C] (lit ''&lt;'') (if x = 0x26 then lit ''&amp;'' else [x]))))) s)"
    unfolding encodeXmlText_def lits(6-8)
    by (simp add: replaceAll_single_concat replaceAll_single[of "0x26"])
  also have "\<dots> = concat (map entity s)"
    by (rule arg_cong[where f=concat], rule map_cong, rule refl)
       (simp add: entity_def lits apos_def dquote_def)
  finally show ?thesis .
qed


lemma decode_lt:
  "replaceAll (lit ''&lt;'') (lit ''<'') (concat (map (partial {0x26, 0x3C, 0x3E, 0x22, 0x27}) s))
   = concat (map (partial {0x26, 0x3E, 0x22, 0x27}) s)"
  by (induction s) (simp_all add: partial_def entity_def lits)

lemma decode_gt:
  "replaceAll (lit ''&gt;'') (lit ''>'') (concat (map (partial {0x26, 0x3E, 0x22, 0x27}) s))
   = concat (map (partial {0x26, 0x22, 0x27}) s)"
  by (induction s) (simp_all add: partial_def entity_def lits)

lemma decode_quot:
  "replaceAll (lit ''&quot;'') [dquote] (concat (map (partial {0x26, 0x22, 0x27}) s))
   = concat (map (partial {0x26, 0x27}) s)"
  by (induction s) (simp_all add: partial_def entity_def lits dquote_def)

lemma decode_apos:
  "replaceAll (lit ''&apos;'') [apos] (concat (map (partial {0x26, 0x27}) s))
   = concat (map (partial {0x26}) s)"
  by (induction s) (simp_all add: partial_def entity_def lits apos_def)

lemma decode_amp:
  "replaceAll (lit ''&amp;'') (lit ''&'') (concat (map (partial {0x26}) s))
   = concat (map (partial {}) s)"
  by (induction s) (simp_all add: partial_def entity_def lits)

lemma partial_all: "map (partial {0x26, 0x3C, 0x3E, 0x22, 0x27}) s = map entity s"
  by (rule map_cong) (auto simp: partial_def entity_def)

lemma partial_none: "concat (map (partial {}) s) = s"
  by (induction s) (simp_all add: partial_def)

text \<open>
  Claim C3. For every string \<open>s\<close>, decoding the encoding of \<open>s\<close> gives \<open>s\<close> back:
  \<open>decodeXmlText (encodeXmlText s) = s\<close>, whatever combination of the five reserved
  characters \<open>s\<close> contains.
\<close>

theorem decode_encode_inverse: "decodeXmlText (encodeXmlText s) = s"
  unfolding decodeXmlText_def encode_map
  by (simp only: partial_all[symmetric] decode_lt decode_gt decode_quot decode_apos decode_amp
      partial_none)


section \<open>Splitting and patching the document stream\<close>

lemma chained_mono: "chained i ms \<Longrightarrow> i' \<le> i \<Longrightarrow> chained i' ms"
  by (cases ms) auto

lemma regexMatches_end: "length s \<le> i \<Longrightarrow> regexMatches re s i = []"
  by (simp add: regexMatches.simps[of re s i])

lemma regexMatches_miss:
  "\<not> length s \<le> i \<Longrightarrow> re (drop i s) = None \<Longrightarrow>
   regexMatches re s i = regexMatches re s (Suc i)"
  by (simp add: regexMatches.simps[of re s i])

lemma regexMatches_hit:
  "\<not> length s \<le> i \<Longrightarrow> re (drop i s) = Some (n, g) \<Longrightarrow>
   regexMatches re s i = (i, n, g) # regexMatches re s (i + max 1 n)"
  by (simp add: regexMatches.simps[of re s i])

lemma regexMatches_chained: "chained i (regexMatches re s i)"
proof (induction re s i rule: regexMatches.induct)
  case (1 re s i)
  show ?case
  proof (cases "length s \<le> i")
    case True
    then show ?thesis by (simp add: regexMatches_end)
  next
    case False
    show ?thesis
    proof (cases "re (drop i s)")
      case None
      then have "chained (Suc i) (regexMatches re s (Suc i))" using 1 False None by simp
      then have "chained i (regexMatches re s (Suc i))" by (rule chained_mono) simp
      then show ?thesis using None False by (simp add: regexMatches_miss)
    next
      case (Some a)
      obtain n g where a: "a = (n, g)" by (cases a)
      have "chained (i + max 1 n) (regexMatches re s (i + max 1 n))"
        using 1 False Some a by simp
      then have "chained (i + n) (regexMatches re s (i + max 1 n))"
        by (rule chained_mono) simp
      then show ?thesis using Some a False by (simp add: regexMatches_hit)
    qed
  qed
qed

lemma splitLoop_concat:
  "chained lastIndex ms \<Longrightarrow>
   concat (map partXml (splitLoop documentXml ms lastIndex paraIndex tcDepth))
     = drop lastIndex documentXml"
proof (induction ms arbitrary: lastIndex paraIndex tcDepth)
  case Nil
  then show ?case by (simp add: Let_def)
next
  case (Cons m ms)
  obtain start len u where m: "m = (start, len, u)" by (cases m)
  have le: "lastIndex \<le> start" and ch: "chained (start + len) ms"
    using Cons.prems m by simp_all
  define b where "b = take (start - lastIndex) (drop lastIndex documentXml)"
  have rest: "concat (map partXml (splitLoop documentXml ms (start + len) (paraIndex + 1) d))
      = drop (start + len) documentXml" for d
    using Cons.IH[OF ch] .
  have whole: "b @ take len (drop start documentXml) @ drop (start + len) documentXml
        = drop lastIndex documentXml"
  proof -
    have "take len (drop start documentXml) @ drop (start + len) documentXml
          = drop start documentXml"
      by (metis add.commute append_take_drop_id drop_drop)
    moreover have "drop start documentXml = drop (start - lastIndex) (drop lastIndex documentXml)"
      using le by simp
    ultimately show ?thesis unfolding b_def by (metis append_take_drop_id)
  qed
  have pre: "concat (map partXml ((if b = [] then [] else [Chunk b]) @ ys))
      = b @ concat (map partXml ys)" for ys
    by simp
  have "splitLoop documentXml (m # ms) lastIndex paraIndex tcDepth
      = (if b = [] then [] else [Chunk b])
        @ ParagraphPart
            \<lparr>blockId = lit ''p-'' @ decimal paraIndex, blockIndex = paraIndex,
             blockKind = (if 0 < (if b = [] then tcDepth else updateTableCellDepth b tcDepth)
                          then tableCellParagraph else plainParagraph),
             blockText = extractParagraphText (take len (drop start documentXml)),
             xml = take len (drop start documentXml)\<rparr>
        # splitLoop documentXml ms (start + len) (paraIndex + 1)
            (updateTableCellDepth (take len (drop start documentXml))
               (if b = [] then tcDepth else updateTableCellDepth b tcDepth))"
    unfolding b_def by (simp add: m Let_def)
  then have "concat (map partXml (splitLoop documentXml (m # ms) lastIndex paraIndex tcDepth))
      = b @ take len (drop start documentXml) @ drop (start + len) documentXml"
    by (simp only: pre list.map concat.simps partXml.simps rest) simp
  then show ?case using whole by simp
qed

lemma split_concat:
  "concat (map partXml (parts (splitDocumentXmlIntoParts documentXml))) = documentXml"
  by (simp add: splitDocumentXmlIntoParts_def Let_def splitLoop_concat[OF regexMatches_chained])


lemma paragraphsOf_mem: "ParagraphPart p \<in> set ps \<Longrightarrow> p \<in> set (paragraphsOf ps)"
  by (induction ps rule: paragraphsOf.induct) auto

lemma patchPart_unmatched:
  "\<forall>p\<in>set (paragraphsOf ps). replacements (blockId p) = None \<Longrightarrow>
   map (patchPart replacements) ps = ps"
  by (induction ps rule: paragraphsOf.induct) (simp_all add: patchPart_def)

lemma patch_unmatched:
  "\<forall>p\<in>set (paragraphs (splitDocumentXmlIntoParts documentXml)). replacements (blockId p) = None
   \<Longrightarrow> patchDocumentXml documentXml replacements = documentXml"
proof -
  assume h: "\<forall>p\<in>set (paragraphs (splitDocumentXmlIntoParts documentXml)).
               replacements (blockId p) = None"
  have "paragraphs (splitDocumentXmlIntoParts documentXml)
        = paragraphsOf (parts (splitDocumentXmlIntoParts documentXml))"
    by (simp add: splitDocumentXmlIntoParts_def Let_def)
  then have "map (patchPart replacements) (parts (splitDocumentXmlIntoParts documentXml))
      = parts (splitDocumentXmlIntoParts documentXml)"
    using h patchPart_unmatched by simp
  then show ?thesis by (simp add: patchDocumentXml_def split_concat)
qed

text \<open>
  Claim C4. Splitting a document stream into its alternating chunk and paragraph parts and
  concatenating the parts in order gives the stream back, character for character; so
  patching with the empty replacement map, or with a map none of whose ids is the id of
  a block of the document, leaves the stream as it is, and the archive with it.
\<close>

theorem patch_without_match_is_identity:
  "concat (map partXml (parts (splitDocumentXmlIntoParts documentXml))) = documentXml
   \<and> patchDocumentXml documentXml Map.empty = documentXml
   \<and> ((\<forall>p\<in>set (paragraphs (splitDocumentXmlIntoParts documentXml)).
          replacements (blockId p) = None)
        \<longrightarrow> patchDocumentXml documentXml replacements = documentXml)
   \<and> (originalDocx ''word/document.xml'' = Some documentXml
        \<longrightarrow> patchDocxParagraphs originalDocx Map.empty = Inr originalDocx)"
proof (intro conjI impI)
  show "concat (map partXml (parts (splitDocumentXmlIntoParts documentXml))) = documentXml"
    by (rule split_concat)
  show e: "patchDocumentXml documentXml Map.empty = documentXml"
    by (rule patch_unmatched) simp
  show "patchDocumentXml documentXml replacements = documentXml"
    if "\<forall>p\<in>set (paragraphs (splitDocumentXmlIntoParts documentXml)).
          replacements (blockId p) = None"
    using that by (rule patch_unmatched)
  show "patchDocxParagraphs originalDocx Map.empty = Inr originalDocx"
    if h: "originalDocx ''word/document.xml'' = Some documentXml"
  proof -
    have "originalDocx(''word/document.xml'' \<mapsto> documentXml) = originalDocx"
      using h by (rule map_upd_triv)
    then show ?thesis by (simp add: patchDocxParagraphs_def h e)
  qed
qed

lemma docTable_ids: "map blockId (paragraphs (splitDocumentXmlIntoParts docTable)) = [lit ''p-0'']"
  by code_simp

theorem patch_without_match_is_identity_witness:
  "map blockId (paragraphs (splitDocumentXmlIntoParts docTable)) = [lit ''p-0'']
   \<and> otherId (lit ''p-0'') = None
   \<and> patchDocumentXml docTable otherId = docTable
   \<and> archive ''word/document.xml'' = Some docTable
   \<and> patchDocxParagraphs archive Map.empty = Inr archive"
proof -
  have n: "otherId (lit ''p-0'') = None" by (simp add: otherId_def lit_def)
  have s: "set (map blockId (paragraphs (splitDocumentXmlIntoParts docTable))) = {lit ''p-0''}"
    by (simp add: docTable_ids)
  have a: "\<forall>p\<in>set (paragraphs (splitDocumentXmlIntoParts docTable)).
      otherId (blockId p) = None"
  proof
    fix p assume "p \<in> set (paragraphs (splitDocumentXmlIntoParts docTable))"
    then have "blockId p \<in> set (map blockId (paragraphs (splitDocumentXmlIntoParts docTable)))"
      by simp
    then have "blockId p = lit ''p-0''" unfolding s by simp
    then show "otherId (blockId p) = None" using n by simp
  qed
  have z: "archive ''word/document.xml'' = Some docTable" by (simp add: archive_def)
  show ?thesis
    using patch_without_match_is_identity [of docTable otherId archive] a z n docTable_ids
    by simp
qed

lemma funpow_inc: "((\<lambda>d::int. d + 1) ^^ n) d = d + int n"
  by (induction n) simp_all

lemma funpow_dec: "0 \<le> d \<Longrightarrow> ((\<lambda>d::int. max 0 (d - 1)) ^^ n) d = max 0 (d - int n)"
  by (induction n) (auto simp: max_def)

lemma updateTableCellDepth_closed:
  "0 \<le> d \<Longrightarrow> updateTableCellDepth x d = max 0 (d + int (tcOpens x) - int (tcCloses x))"
  by (simp add: updateTableCellDepth_def funpow_inc funpow_dec)

lemma split_at_paragraph:
  "\<forall>x\<in>set B. \<exists>c. x = Chunk c \<Longrightarrow>
   B @ ParagraphPart q # R = pre @ ParagraphPart p # post \<Longrightarrow>
   (pre = B \<and> p = q \<and> post = R)
   \<or> (\<exists>pre'. pre = B @ ParagraphPart q # pre' \<and> R = pre' @ ParagraphPart p # post)"
proof (induction B arbitrary: pre)
  case Nil
  then show ?case by (cases pre) auto
next
  case (Cons c B)
  then show ?case by (cases pre) auto
qed

lemma splitLoop_kind:
  "0 \<le> d \<Longrightarrow> splitLoop documentXml ms lastIndex paraIndex d = pre @ ParagraphPart p # post \<Longrightarrow>
   (blockKind p = tableCellParagraph)
     = (0 < foldl (\<lambda>d x. max 0 (d + int (tcOpens x) - int (tcCloses x))) d (map partXml pre))"
proof (induction ms arbitrary: lastIndex paraIndex d pre)
  case Nil
  then show ?case by (cases pre) (auto simp: Let_def split: if_splits)
next
  case (Cons m ms)
  obtain start len u where m: "m = (start, len, u)" by (cases m)
  define b where "b = take (start - lastIndex) (drop lastIndex documentXml)"
  define d1 where "d1 = (if b = [] then d else updateTableCellDepth b d)"
  define paraXml where "paraXml = take len (drop start documentXml)"
  define q where "q = \<lparr>blockId = lit ''p-'' @ decimal paraIndex, blockIndex = paraIndex,
             blockKind = (if 0 < d1 then tableCellParagraph else plainParagraph),
             blockText = extractParagraphText paraXml, xml = paraXml\<rparr>"
  define B where "B = (if b = [] then [] else [Chunk b])"
  define R where "R = splitLoop documentXml ms (start + len) (paraIndex + 1)
            (updateTableCellDepth paraXml d1)"
  have unfold: "splitLoop documentXml (m # ms) lastIndex paraIndex d = B @ ParagraphPart q # R"
    unfolding B_def R_def q_def d1_def paraXml_def b_def by (simp add: m Let_def)
  have d1_nonneg: "0 \<le> d1" using Cons.prems(1) by (simp add: d1_def updateTableCellDepth_closed)
  have d1_fold: "d1 = foldl (\<lambda>d x. max 0 (d + int (tcOpens x) - int (tcCloses x))) d (map partXml B)"
    using Cons.prems(1) by (simp add: d1_def B_def updateTableCellDepth_closed)
  have d2_nonneg: "0 \<le> updateTableCellDepth paraXml d1"
    using d1_nonneg by (simp add: updateTableCellDepth_closed)
  have chunks: "\<forall>x\<in>set B. \<exists>c. x = Chunk c" by (simp add: B_def)
  from split_at_paragraph[OF chunks] Cons.prems(2)[unfolded unfold]
  consider (here) "pre = B" "p = q" "post = R"
    | (later) pre' where "pre = B @ ParagraphPart q # pre'" "R = pre' @ ParagraphPart p # post"
    by blast
  then show ?case
  proof cases
    case here
    then show ?thesis using d1_fold by (simp add: q_def)
  next
    case later
    have "(blockKind p = tableCellParagraph)
      = (0 < foldl (\<lambda>d x. max 0 (d + int (tcOpens x) - int (tcCloses x)))
               (updateTableCellDepth paraXml d1) (map partXml pre'))"
      using Cons.IH[OF d2_nonneg] later(2) unfolding R_def by blast
    moreover have "xml q = paraXml" by (simp add: q_def)
    ultimately show ?thesis
      using later(1) d1_fold d1_nonneg by (simp add: updateTableCellDepth_closed)
  qed
qed

lemma blockKind_cases: "(k = plainParagraph) = (k \<noteq> tableCellParagraph)"
  by (cases k) simp_all

lemma docStray_parts:
  "parts (splitDocumentXmlIntoParts docStray) = [Chunk (lit ''</w:tc><w:tc>''), ParagraphPart strayPara]"
  by code_simp

lemma docStray_docOrder: "docOrderDepth (lit ''</w:tc><w:tc>'') 0 = 1"
  by code_simp

text \<open>
  Claim C6, as stated, fails: in \<open></w:tc><w:tc><w:p></w:p>\<close> a counter that takes the
  tags in document order stands at 1 where the block starts (the close tag is floored at
  0, then the open tag counts), but the code counts the open tags of the chunk before its
  close tags, ends at 0 and classifies the block as a plain paragraph.
\<close>

theorem table_cell_document_order_counterexample:
  "parts (splitDocumentXmlIntoParts docStray)
     = [Chunk (lit ''</w:tc><w:tc>''), ParagraphPart strayPara]
   \<and> blockKind strayPara = plainParagraph
   \<and> 0 < docOrderDepth (lit ''</w:tc><w:tc>'') 0"
  using docStray_parts docStray_docOrder by (simp add: strayPara_def)

text \<open>
  Claim C6, amended. The counter is kept fragment by fragment, the fragments being the
  in-between chunks and the block fragments in document order: each fragment first adds
  one per open table-cell tag in it and then subtracts one per close tag in it, not
  below 0. A block is a table-cell block exactly when this counter, taken over all the
  fragments before the block, is positive, and a plain block otherwise.
\<close>

theorem table_cell_kind_by_fragment_counter:
  "parts (splitDocumentXmlIntoParts documentXml) = pre @ ParagraphPart p # post \<longrightarrow>
     (blockKind p = tableCellParagraph) = (0 < fragmentDepth (map partXml pre))
     \<and> (blockKind p = plainParagraph) = (\<not> 0 < fragmentDepth (map partXml pre))"
proof
  assume h: "parts (splitDocumentXmlIntoParts documentXml) = pre @ ParagraphPart p # post"
  then have "splitLoop documentXml (regexMatches matchParagraph documentXml 0) 0 0 0
      = pre @ ParagraphPart p # post"
    by (simp add: splitDocumentXmlIntoParts_def Let_def)
  then have "(blockKind p = tableCellParagraph) = (0 < fragmentDepth (map partXml pre))"
    unfolding fragmentDepth_def by (intro splitLoop_kind) simp_all
  then show "(blockKind p = tableCellParagraph) = (0 < fragmentDepth (map partXml pre))
     \<and> (blockKind p = plainParagraph) = (\<not> 0 < fragmentDepth (map partXml pre))"
    by (simp add: blockKind_cases)
qed

lemma docTable_parts:
  "parts (splitDocumentXmlIntoParts docTable)
     = [Chunk (lit ''<w:tc>'')] @ ParagraphPart cellPara # [Chunk (lit ''</w:tc>'')]"
  by code_simp

lemma docTable_depth: "fragmentDepth (map partXml [Chunk (lit ''<w:tc>'')]) = 1"
  by code_simp

theorem table_cell_kind_by_fragment_counter_witness:
  "parts (splitDocumentXmlIntoParts docTable)
     = [Chunk (lit ''<w:tc>'')] @ ParagraphPart cellPara # [Chunk (lit ''</w:tc>'')]
   \<and> blockKind cellPara = tableCellParagraph
   \<and> 0 < fragmentDepth (map partXml [Chunk (lit ''<w:tc>'')])"
  using table_cell_kind_by_fragment_counter
          [of docTable "[Chunk (lit ''<w:tc>'')]" cellPara "[Chunk (lit ''</w:tc>'')]"]
        docTable_parts docTable_depth
  by simp


section \<open>Patching and re-extraction\<close>

lemma docNested_blocks:
  "map (\<lambda>p. (blockId p, blockText p)) (paragraphs (splitDocumentXmlIntoParts docNested))
     = [(lit ''p-0'', lit ''c''), (lit ''p-1'', lit ''e'')]"
  by code_simp

lemma docNested_patched_blocks:
  "map (\<lambda>p. (blockId p, blockText p))
     (paragraphs (splitDocumentXmlIntoParts (patchDocumentXml docNested onlyFirst)))
     = [(lit ''p-0'', []), (lit ''p-1'', []), (lit ''p-2'', lit ''e'')]"
  by code_simp

text \<open>
  Claim C5 at a document on which the code breaks it. The first block is
  \<open><w:p><w:t b="$'">c</w:t><w:p></w:p>\<close>, the second \<open><w:p><w:t>e</w:t></w:p>\<close>, and
  only \<open>p-0\<close> is in the replacement map. \<open>String.prototype.replace\<close> expands the \<open>$'\<close> of
  the attribute, which the code copies into its replacement string, to the text after
  the match, so the patched fragment holds a second \<open><w:p></w:p>\<close>. Re-extraction of the
  patched stream then finds three blocks, and the text of \<open>p-1\<close>, which was \<open>e\<close>, is
  empty.
\<close>

theorem patch_disturbs_unpatched_block:
  "map (\<lambda>p. (blockId p, blockText p)) (paragraphs (splitDocumentXmlIntoParts docNested))
     = [(lit ''p-0'', lit ''c''), (lit ''p-1'', lit ''e'')]
   \<and> onlyFirst (lit ''p-1'') = None
   \<and> map (\<lambda>p. (blockId p, blockText p))
         (paragraphs (splitDocumentXmlIntoParts (patchDocumentXml docNested onlyFirst)))
     = [(lit ''p-0'', []), (lit ''p-1'', []), (lit ''p-2'', lit ''e'')]"
  using docNested_blocks docNested_patched_blocks by (simp add: onlyFirst_def lit_def)


section \<open>Detection\<close>

lemma isoWindow_total: "i + 2 < length ps \<Longrightarrow> \<exists>xs. isoWindow ps i = Inr xs"
  by (simp add: isoWindow_def nthOpt_def Let_def)

lemma isoFold_total:
  "\<forall>i\<in>set js. i + 2 < length ps \<Longrightarrow>
   \<exists>S. foldl (\<lambda>acc i.
                    case acc of
                      Inl e \<Rightarrow> Inl e
                    | Inr isomorphicIndices \<Rightarrow>
                        (case isoWindow ps i of
                           Inl e \<Rightarrow> Inl e
                         | Inr added \<Rightarrow> Inr (isomorphicIndices \<union> set added)))
             (Inr S0) js = Inr S"
proof (induction js arbitrary: S0)
  case Nil
  then show ?case by simp
next
  case (Cons j js)
  then obtain xs where "isoWindow ps j = Inr xs" using isoWindow_total[of j ps] by auto
  then show ?case using Cons by simp
qed

lemma detectStructuralIsomorphism_total: "\<exists>S. detectStructuralIsomorphism ps = Inr S"
proof (cases "length ps < 3")
  case True
  then show ?thesis by (simp add: detectStructuralIsomorphism_def)
next
  case False
  have "\<forall>i\<in>set [0..<length ps - 2]. i + 2 < length ps" by auto
  from isoFold_total[OF this] show ?thesis using False
    by (simp add: detectStructuralIsomorphism_def)
qed

lemma neighbourSims_total:
  "i < length toks \<Longrightarrow>
   neighbourSims toks i =
     Inr (if 0 < i then jaccard (toks ! (i - 1)) (toks ! i) else 1,
          if i + 1 < length toks then jaccard (toks ! i) (toks ! (i + 1)) else 1)"
proof -
  assume i: "i < length toks"
  then have "i - 1 < length toks" by simp
  then show ?thesis using i by (simp add: neighbourSims_def nthOpt_def Let_def)
qed

lemma collect_total:
  "\<forall>x\<in>set xs. f x = Inr (g x) \<Longrightarrow> collect (map f xs) = Inr (map g xs)"
  by (induction xs) simp_all

lemma reports_total:
  "collect (map (\<lambda>(p, i). paragraphReportAt measured
                   (map (\<lambda>p. tokenSet jiebaCut (blockText p)) blocks) S p i)
             (zip blocks [0..<length blocks]))
   = Inr (map (reportOfBlock jiebaCut measured blocks S) [0..<length blocks])"
proof -
  have "\<forall>x\<in>set (zip blocks [0..<length blocks]).
      (\<lambda>(p, i). paragraphReportAt measured
                   (map (\<lambda>p. tokenSet jiebaCut (blockText p)) blocks) S p i) x
      = Inr ((\<lambda>(p, i). reportOfBlock jiebaCut measured blocks S i) x)"
  proof
    fix x assume x: "x \<in> set (zip blocks [0..<length blocks])"
    obtain p i where pi: "x = (p, i)" by (cases x)
    from x pi obtain k where k: "k < length blocks" "blocks ! k = p" "[0..<length blocks] ! k = i"
      by (auto simp: in_set_zip)
    then have i: "i < length blocks" "blocks ! i = p" by auto
    show "(\<lambda>(p, i). paragraphReportAt measured
                   (map (\<lambda>p. tokenSet jiebaCut (blockText p)) blocks) S p i) x
      = Inr ((\<lambda>(p, i). reportOfBlock jiebaCut measured blocks S i) x)"
      using i by (simp add: pi paragraphReportAt_def neighbourSims_total reportOfBlock_def Let_def)
  qed
  from collect_total[OF this]
  have "collect (map (\<lambda>(p, i). paragraphReportAt measured
                   (map (\<lambda>p. tokenSet jiebaCut (blockText p)) blocks) S p i)
             (zip blocks [0..<length blocks]))
      = Inr (map (\<lambda>(p, i). reportOfBlock jiebaCut measured blocks S i)
               (zip blocks [0..<length blocks]))" .
  moreover have "map (\<lambda>(p, i). reportOfBlock jiebaCut measured blocks S i)
               (zip blocks [0..<length blocks])
      = map (reportOfBlock jiebaCut measured blocks S) [0..<length blocks]"
    by (rule nth_equalityI) simp_all
  ultimately show ?thesis by simp
qed

lemma detect_closed:
  "\<exists>S. detectStructuralIsomorphism (map (\<lambda>p. (blockText p, blockIndex p)) blocks) = Inr S
     \<and> detectAigcRisk jiebaCut measured now blocks =
       Inr \<lparr>generatedAt = now,
            overallRiskScore =
              fst (documentScore (map (reportOfBlock jiebaCut measured blocks S) [0..<length blocks])),
            overallRiskLevel =
              snd (documentScore (map (reportOfBlock jiebaCut measured blocks S) [0..<length blocks])),
            paragraphReports = map (reportOfBlock jiebaCut measured blocks S) [0..<length blocks],
            limitations = [RiskHintNotEvidence, FalsePositivesAndNegatives, NoFactChecking]\<rparr>"
proof -
  obtain S where S: "detectStructuralIsomorphism (map (\<lambda>p. (blockText p, blockIndex p)) blocks) = Inr S"
    using detectStructuralIsomorphism_total by blast
  show ?thesis
    by (rule exI[of _ S]) (simp add: detectAigcRisk_def S reports_total Let_def)
qed


lemma documentScore_Nil: "documentScore [] = (0, Low)"
  by (simp add: documentScore_def overallRiskScoreOf_def riskLevelOf_def)

text \<open>
  Claim C9. \<open>detectAigcRisk\<close> returns a report for every list of blocks, whatever the
  segmentation library and the features are: no array read of the isomorphism scan or
  of the neighbour comparison is out of range, so nothing throws. There is one paragraph
  report per block. For the empty list the report has score 0, level low and no
  paragraph reports.
\<close>

theorem detect_total:
  "(\<exists>r. detectAigcRisk jiebaCut measured now blocks = Inr r
        \<and> length (paragraphReports r) = length blocks)
   \<and> detectAigcRisk jiebaCut measured now [] =
       Inr \<lparr>generatedAt = now, overallRiskScore = 0, overallRiskLevel = Low,
            paragraphReports = [],
            limitations = [RiskHintNotEvidence, FalsePositivesAndNegatives, NoFactChecking]\<rparr>"
proof
  from detect_closed[of blocks jiebaCut measured now]
  show "\<exists>r. detectAigcRisk jiebaCut measured now blocks = Inr r
        \<and> length (paragraphReports r) = length blocks"
    by auto
  from detect_closed[of "[]" jiebaCut measured now]
  show "detectAigcRisk jiebaCut measured now [] =
       Inr \<lparr>generatedAt = now, overallRiskScore = 0, overallRiskLevel = Low,
            paragraphReports = [],
            limitations = [RiskHintNotEvidence, FalsePositivesAndNegatives, NoFactChecking]\<rparr>"
    by (auto simp: documentScore_Nil)
qed

text \<open>
  Claim C7, as stated, fails: the report holds \<open>generatedAt\<close>, the value of \<open>Date.now()\<close>,
  so two runs on the same blocks at different times give different reports.
\<close>

theorem detect_clock_counterexample:
  "detectAigcRisk noCut plainFeatures 0 [blockA] \<noteq> detectAigcRisk noCut plainFeatures 1 [blockA]"
proof -
  obtain S r0 r1 where
    "detectAigcRisk noCut plainFeatures 0 [blockA] = Inr r0" "generatedAt r0 = 0"
    "detectAigcRisk noCut plainFeatures 1 [blockA] = Inr r1" "generatedAt r1 = 1"
    using detect_closed[of "[blockA]" noCut plainFeatures 0]
      detect_closed[of "[blockA]" noCut plainFeatures 1]
    by auto
  then show ?thesis by auto
qed

text \<open>
  Claim C7, amended. Two runs of \<open>detectAigcRisk\<close> on the same list of blocks give reports
  that agree in every field but \<open>generatedAt\<close>, which is the time of the run: the score,
  the level, the paragraph reports and the limitations depend on the blocks (through the
  segmentation library and the feature extraction, both functions of the text) and on
  nothing else.
\<close>

theorem detect_deterministic_up_to_clock:
  "\<exists>r. detectAigcRisk jiebaCut measured now blocks = Inr r \<and> generatedAt r = now
      \<and> detectAigcRisk jiebaCut measured now' blocks = Inr (r\<lparr>generatedAt := now'\<rparr>)"
proof -
  obtain S where S: "detectStructuralIsomorphism (map (\<lambda>p. (blockText p, blockIndex p)) blocks) = Inr S"
    using detectStructuralIsomorphism_total by blast
  show ?thesis
    by (simp add: detectAigcRisk_def S reports_total Let_def)
qed

lemma fl_008: "fl (8 / 100) = 5764607523034235 / 72057594037927936"
  by code_simp

lemma jaccard_empty: "jaccard {} b = 0 \<and> jaccard a {} = 0"
  by (simp add: jaccard_def)

lemma topicShift_fires:
  "(topicShift \<in> set (paragraphSignals f t simPrev simNext isom))
     = (50 \<le> charCount f \<and> (simPrev < fl (8 / 100) \<or> simNext < fl (8 / 100)))"
  by (auto simp: paragraphSignals_def Let_def sig_def topicShift_def min_less_iff_disj)

lemma topicShift_in_report:
  assumes "detectAigcRisk jiebaCut measured now blocks = Inr r" and "i < length blocks"
  shows "(topicShift \<in> set (signals (paragraphReports r ! i)))
     = (50 \<le> length (blockText (blocks ! i))
        \<and> ((0 < i \<and> jaccard (tokenSet jiebaCut (blockText (blocks ! (i - 1))))
                            (tokenSet jiebaCut (blockText (blocks ! i))) < fl (8 / 100))
           \<or> (i + 1 < length blocks
               \<and> jaccard (tokenSet jiebaCut (blockText (blocks ! i)))
                          (tokenSet jiebaCut (blockText (blocks ! (i + 1)))) < fl (8 / 100))))"
proof -
  obtain S where "detectAigcRisk jiebaCut measured now blocks =
       Inr \<lparr>generatedAt = now,
            overallRiskScore =
              fst (documentScore (map (reportOfBlock jiebaCut measured blocks S) [0..<length blocks])),
            overallRiskLevel =
              snd (documentScore (map (reportOfBlock jiebaCut measured blocks S) [0..<length blocks])),
            paragraphReports = map (reportOfBlock jiebaCut measured blocks S) [0..<length blocks],
            limitations = [RiskHintNotEvidence, FalsePositivesAndNegatives, NoFactChecking]\<rparr>"
    using detect_closed[of blocks jiebaCut measured now] by blast
  then have "paragraphReports r = map (reportOfBlock jiebaCut measured blocks S) [0..<length blocks]"
    using assms(1) by simp
  then have r: "paragraphReports r ! i = reportOfBlock jiebaCut measured blocks S i"
    using assms(2) by simp
  have one: "\<not> (1::rat) < fl (8 / 100)" unfolding fl_008 by simp
  have prev: "i - 1 < length blocks" using assms(2) by simp
  show ?thesis
    unfolding r reportOfBlock_def Let_def
    using assms(2) prev one
    by (auto simp: scoreParagraph_def topicShift_fires extractFeatures_def)
qed

text \<open>
  Claim C10. \<open>jaccard\<close> is 0 when either token set is empty. In a report, the topic-shift
  signal of the block at position \<open>i\<close> fires exactly when the block has at least 50
  characters and its similarity to a neighbour that is present is below 0.08; a missing
  neighbour counts as similarity 1 and contributes nothing. So a block of at least 50
  characters with at least one neighbour, all of whose present neighbours have empty
  token sets, gets the signal, and the only block of a document never does.
\<close>

theorem jaccard_empty_and_topic_shift:
  "jaccard {} b = 0 \<and> jaccard a {} = 0
   \<and> (detectAigcRisk jiebaCut measured now blocks = Inr r \<and> i < length blocks \<longrightarrow>
        (topicShift \<in> set (signals (paragraphReports r ! i)))
        = (50 \<le> length (blockText (blocks ! i))
           \<and> ((0 < i \<and> jaccard (tokenSet jiebaCut (blockText (blocks ! (i - 1))))
                               (tokenSet jiebaCut (blockText (blocks ! i))) < fl (8 / 100))
              \<or> (i + 1 < length blocks
                  \<and> jaccard (tokenSet jiebaCut (blockText (blocks ! i)))
                             (tokenSet jiebaCut (blockText (blocks ! (i + 1)))) < fl (8 / 100)))))
   \<and> (detectAigcRisk jiebaCut measured now blocks = Inr r \<and> i < length blocks
        \<and> 50 \<le> length (blockText (blocks ! i))
        \<and> (0 < i \<or> i + 1 < length blocks)
        \<and> (0 < i \<longrightarrow> tokenSet jiebaCut (blockText (blocks ! (i - 1))) = {})
        \<and> (i + 1 < length blocks \<longrightarrow> tokenSet jiebaCut (blockText (blocks ! (i + 1))) = {})
      \<longrightarrow> topicShift \<in> set (signals (paragraphReports r ! i)))
   \<and> (detectAigcRisk jiebaCut measured now [p] = Inr r' \<longrightarrow>
        topicShift \<notin> set (signals (paragraphReports r' ! 0)))"
proof (intro conjI impI)
  show "jaccard {} b = 0" "jaccard a {} = 0" using jaccard_empty by auto
next
  assume "detectAigcRisk jiebaCut measured now blocks = Inr r \<and> i < length blocks"
  then show "(topicShift \<in> set (signals (paragraphReports r ! i)))
        = (50 \<le> length (blockText (blocks ! i))
           \<and> ((0 < i \<and> jaccard (tokenSet jiebaCut (blockText (blocks ! (i - 1))))
                               (tokenSet jiebaCut (blockText (blocks ! i))) < fl (8 / 100))
              \<or> (i + 1 < length blocks
                  \<and> jaccard (tokenSet jiebaCut (blockText (blocks ! i)))
                             (tokenSet jiebaCut (blockText (blocks ! (i + 1)))) < fl (8 / 100))))"
    using topicShift_in_report by blast
next
  assume h: "detectAigcRisk jiebaCut measured now blocks = Inr r \<and> i < length blocks
        \<and> 50 \<le> length (blockText (blocks ! i))
        \<and> (0 < i \<or> i + 1 < length blocks)
        \<and> (0 < i \<longrightarrow> tokenSet jiebaCut (blockText (blocks ! (i - 1))) = {})
        \<and> (i + 1 < length blocks \<longrightarrow> tokenSet jiebaCut (blockText (blocks ! (i + 1))) = {})"
  have pos: "(0::rat) < fl (8 / 100)" unfolding fl_008 by simp
  from h have "(topicShift \<in> set (signals (paragraphReports r ! i)))
        = (50 \<le> length (blockText (blocks ! i))
           \<and> ((0 < i \<and> jaccard (tokenSet jiebaCut (blockText (blocks ! (i - 1))))
                               (tokenSet jiebaCut (blockText (blocks ! i))) < fl (8 / 100))
              \<or> (i + 1 < length blocks
                  \<and> jaccard (tokenSet jiebaCut (blockText (blocks ! i)))
                             (tokenSet jiebaCut (blockText (blocks ! (i + 1)))) < fl (8 / 100))))"
    using topicShift_in_report by blast
  then show "topicShift \<in> set (signals (paragraphReports r ! i))"
    using h pos jaccard_empty by auto
next
  assume "detectAigcRisk jiebaCut measured now [p] = Inr r'"
  from topicShift_in_report[OF this, of 0]
  show "topicShift \<notin> set (signals (paragraphReports r' ! 0))" by simp
qed

lemma empty_tokens:
  "tokenSet charCut (blockText (threeBlocks ! 0)) = {}
   \<and> tokenSet charCut (blockText (threeBlocks ! 2)) = {}"
  by code_simp

lemma empty_neighbours:
  "tokenSet charCut (blockText (threeBlocks ! (1 - 1))) = {}
   \<and> tokenSet charCut (blockText (threeBlocks ! (1 + 1))) = {}"
  by code_simp

theorem jaccard_empty_and_topic_shift_witness:
  "tokenSet charCut (blockText (threeBlocks ! 0)) = {}
   \<and> tokenSet charCut (blockText (threeBlocks ! 2)) = {}
   \<and> 50 \<le> length (blockText (threeBlocks ! 1))
   \<and> (\<exists>r. detectAigcRisk charCut plainFeatures 0 threeBlocks = Inr r
          \<and> topicShift \<in> set (signals (paragraphReports r ! 1)))
   \<and> (\<exists>r. detectAigcRisk charCut plainFeatures 0 [blockA] = Inr r
          \<and> topicShift \<notin> set (signals (paragraphReports r ! 0)))"
proof -
  obtain S r where r: "detectAigcRisk charCut plainFeatures 0 threeBlocks = Inr r"
    using detect_closed[of threeBlocks charCut plainFeatures 0] by blast
  obtain S' r' where r': "detectAigcRisk charCut plainFeatures 0 [blockA] = Inr r'"
    using detect_closed[of "[blockA]" charCut plainFeatures 0] by blast
  have l: "1 < length threeBlocks" "1 + 1 < length threeBlocks"
    "50 \<le> length (blockText (threeBlocks ! 1))"
    by (simp_all add: threeBlocks_def)
  note T = jaccard_empty_and_topic_shift
    [where jiebaCut=charCut and measured=plainFeatures and now=0 and blocks=threeBlocks
       and r=r and i=1 and p=blockA and r'=r']
  have "topicShift \<in> set (signals (paragraphReports r ! 1))"
    using T r l empty_neighbours by blast
  moreover have "topicShift \<notin> set (signals (paragraphReports r' ! 0))"
    using T r' by blast
  ultimately show ?thesis using r r' l(3) empty_tokens by blast
qed

end
